theory Spec2Isabelle
  imports
    Main
    "HOL-Library.AList"
    "HOL-Library.Char_ord"
    "HOL-Library.List_Lexorder"
    "HOL-Library.Multiset"
begin

section \<open>Contract / ZIP index of \<^verbatim>\<open>zipports.py\<close>\<close>

text \<open>
  The development embeds class \<^verbatim>\<open>ContractZipAnalyzer\<close> of \<^verbatim>\<open>src/zipports.py\<close>:
  \<^verbatim>\<open>process_chunk\<close>, \<^verbatim>\<open>load_main_file\<close>, \<^verbatim>\<open>analyze_main_data\<close> and
  \<^verbatim>\<open>analyze_new_zips\<close>, all of which work on the Streamlit session state.

  Conventions of the embedding.
  \<^item> A table cell is \<open>NaN\<close> (pandas' missing value) or \<open>Str t\<close>, a present value
    whose Python \<^verbatim>\<open>str()\<close> is the text \<open>t\<close>.
  \<^item> Contract names are text. \<^verbatim>\<open>load_main_file\<close> drops the rows whose contract
    name is missing before it calls \<^verbatim>\<open>process_chunk\<close>, so the rows that
    \<^verbatim>\<open>process_chunk\<close> receives carry a \<open>string\<close> there.
  \<^item> A Python \<^verbatim>\<open>dict\<close> is an association list in insertion order with distinct
    keys; a Python \<^verbatim>\<open>set\<close> is a list without repetition. Python leaves the
    iteration order of a set open; the list fixes one such order (order of
    insertion), and no statement below about a set depends on it.
  \<^item> Strings are byte strings; \<^verbatim>\<open>strip\<close> and \<^verbatim>\<open>lower\<close> are modelled on ASCII.
\<close>

subsection \<open>Cells and strings\<close>

datatype cell = NaN | Str string

text \<open>\<^verbatim>\<open>str(v)\<close> on a cell.\<close>

definition str :: "cell \<Rightarrow> string" where
  "str v = (case v of NaN \<Rightarrow> ''nan'' | Str t \<Rightarrow> t)"

text \<open>The characters \<^verbatim>\<open>str.strip()\<close> removes, within ASCII.\<close>

definition isspace :: "char \<Rightarrow> bool" where
  "isspace c \<longleftrightarrow>
     c \<in> set [CHR 0x09, CHR 0x0A, CHR 0x0B, CHR 0x0C, CHR 0x0D,
              CHR 0x1C, CHR 0x1D, CHR 0x1E, CHR 0x1F, CHR 0x20]"

definition strip :: "string \<Rightarrow> string" where
  "strip t = rev (dropWhile isspace (rev (dropWhile isspace t)))"

definition lower_char :: "char \<Rightarrow> char" where
  "lower_char c =
     (if CHR ''A'' \<le> c \<and> c \<le> CHR ''Z'' then char_of (of_char c + (32 :: nat)) else c)"

definition lower :: "string \<Rightarrow> string" where
  "lower t = map lower_char t"

text \<open>\<^verbatim>\<open>sub in t\<close> on strings.\<close>

fun contains :: "string \<Rightarrow> string \<Rightarrow> bool" where
  "contains sub [] \<longleftrightarrow> sub = []"
| "contains sub (c # cs) \<longleftrightarrow> take (length sub) (c # cs) = sub \<or> contains sub cs"

text \<open>\<^verbatim>\<open>str(n)\<close> on a non-negative integer, as the f-strings of the log lines print it.\<close>

definition digit :: "nat \<Rightarrow> char" where
  "digit d = char_of (48 + d)"

fun str_nat :: "nat \<Rightarrow> string" where
  "str_nat n = (if n < 10 then [digit n] else str_nat (n div 10) @ [digit (n mod 10)])"

declare str_nat.simps [simp del]

text \<open>\<^verbatim>\<open>", ".join(xs)\<close> and \<^verbatim>\<open>t.split(", ")\<close>.\<close>

fun join_comma :: "string list \<Rightarrow> string" where
  "join_comma [] = []"
| "join_comma [x] = x"
| "join_comma (x # y # ys) = x @ '', '' @ join_comma (y # ys)"

fun split_from :: "string \<Rightarrow> string \<Rightarrow> string list" where
  "split_from acc [] = [rev acc]"
| "split_from acc [c] = [rev (c # acc)]"
| "split_from acc (c # d # cs) =
     (if c = CHR '','' \<and> d = CHR '' '' then rev acc # split_from [] cs
      else split_from (c # acc) (d # cs))"

definition split_comma :: "string \<Rightarrow> string list" where
  "split_comma t = split_from [] t"

subsection \<open>Dictionaries and sets\<close>

datatype error =
    KeyError string
  | ValueError string
  | AttributeError string
  | NameError string

definition keys :: "('k \<times> 'v) list \<Rightarrow> 'k list" where
  "keys d = map fst d"

text \<open>\<^verbatim>\<open>d[k]\<close> on a plain dict raises \<^verbatim>\<open>KeyError\<close> on a missing key.\<close>

definition getitem :: "(string \<times> 'v) list \<Rightarrow> string \<Rightarrow> error + 'v" where
  "getitem d k = (case map_of d k of None \<Rightarrow> Inl (KeyError k) | Some v \<Rightarrow> Inr v)"

text \<open>
  \<^verbatim>\<open>d[k]\<close> on a \<^verbatim>\<open>defaultdict(set)\<close>: a missing key is first inserted with an
  empty set, so the lookup returns the value together with the dictionary.
\<close>

definition dd_getitem :: "('k \<times> 'a list) list \<Rightarrow> 'k \<Rightarrow> 'a list \<times> ('k \<times> 'a list) list" where
  "dd_getitem d k = (case map_of d k of Some v \<Rightarrow> (v, d) | None \<Rightarrow> ([], d @ [(k, [])]))"

text \<open>\<^verbatim>\<open>s.add(x)\<close> on a set.\<close>

definition set_add :: "'a \<Rightarrow> 'a list \<Rightarrow> 'a list" where
  "set_add x xs = (if x \<in> set xs then xs else xs @ [x])"

text \<open>\<^verbatim>\<open>d[k].add(x)\<close> on a \<^verbatim>\<open>defaultdict(set)\<close>.\<close>

definition dd_add :: "('k \<times> 'a list) list \<Rightarrow> 'k \<Rightarrow> 'a \<Rightarrow> ('k \<times> 'a list) list" where
  "dd_add d k x = (case dd_getitem d k of (v, d') \<Rightarrow> AList.update k (set_add x v) d')"

text \<open>The set stored under a key, empty when the key is absent.\<close>

definition members :: "('k \<times> 'a list) list \<Rightarrow> 'k \<Rightarrow> 'a set" where
  "members d k = (case map_of d k of None \<Rightarrow> {} | Some v \<Rightarrow> set v)"

subsection \<open>Rows, contract metadata and the session state\<close>

text \<open>
  A row as \<^verbatim>\<open>process_chunk\<close> reads it. An optional column that the file does not
  have is \<open>None\<close>, which is where \<^verbatim>\<open>row.get(name, '')\<close> yields the empty string.
\<close>

record row =
  Contract_Name :: string
  Zip_Code :: cell
  State_ID :: "cell option"
  Buyer_Name :: "cell option"
  Buyer_ID :: "cell option"
  Vertical_Name :: "cell option"
  Contract_Status :: "cell option"

definition get_or_empty :: "cell option \<Rightarrow> cell" where
  "get_or_empty v = (case v of None \<Rightarrow> Str [] | Some c \<Rightarrow> c)"

record info =
  buyer_name :: cell
  buyer_id :: cell
  vertical_name :: cell
  contract_status :: cell
  zip_states :: "(string \<times> string) list"

subsubsection \<open>Report tables\<close>

record summary_row =
  sm_contract :: string
  sm_buyer_name :: cell
  sm_buyer_id :: cell
  sm_vertical_name :: cell
  sm_contract_status :: cell
  total_zip_codes :: nat
  total_zip_matches :: nat
  unique_overlapping :: nat

record detail_row =
  dt_contract :: string
  dt_buyer_name :: cell
  dt_buyer_id :: cell
  dt_vertical_name :: cell
  dt_contract_status :: cell
  dt_state_id :: string
  dt_zip_code :: string
  dt_match :: string

record match_row =
  new_zip_code :: string
  mt_state_id :: string
  matching_contract :: string
  mt_buyer_name :: cell
  mt_buyer_id :: cell
  mt_vertical_name :: cell
  mt_contract_status :: cell
  contract_total_zips :: nat

datatype sheet =
    Summary_Sheet "summary_row list"
  | Detail_Sheet "detail_row list"
  | Match_Sheet "match_row list"
  | Count_Sheet "(string \<times> nat) list"

type_synonym workbook = "(string \<times> sheet) list"

text \<open>
  The session state. \<open>output_files\<close> maps the name of a generated workbook to the
  workbook written at its path under the temporary directory. Log lines are kept
  without their time stamp.
\<close>

record state =
  contract_zip_map :: "(string \<times> string list) list"
  zip_contract_map :: "(string \<times> string list) list"
  contract_info :: "(string \<times> info) list"
  main_file_loaded :: bool
  logs :: "string list"
  output_files :: "(string \<times> workbook) list"

definition init :: state where
  "init = \<lparr>contract_zip_map = [], zip_contract_map = [], contract_info = [],
           main_file_loaded = False, logs = [], output_files = []\<rparr>"

definition log_message :: "string \<Rightarrow> state \<Rightarrow> state" where
  "log_message message s = s\<lparr>logs := logs s @ [message]\<rparr>"

subsection \<open>\<^verbatim>\<open>process_chunk\<close>\<close>

definition new_info :: "row \<Rightarrow> info" where
  "new_info r =
     \<lparr>buyer_name = get_or_empty (Buyer_Name r),
      buyer_id = get_or_empty (Buyer_ID r),
      vertical_name = get_or_empty (Vertical_Name r),
      contract_status = get_or_empty (Contract_Status r),
      zip_states = []\<rparr>"

definition row_zip :: "row \<Rightarrow> string" where
  "row_zip r = strip (str (Zip_Code r))"

definition row_state_id :: "row \<Rightarrow> string" where
  "row_state_id r = strip (str (get_or_empty (State_ID r)))"

definition skipped :: "row \<Rightarrow> bool" where
  "skipped r \<longleftrightarrow> row_zip r = [] \<or> row_zip r = ''nan''"

text \<open>The body of the loop of \<^verbatim>\<open>process_chunk\<close>, for one row.\<close>

definition process_row :: "row \<Rightarrow> state \<Rightarrow> state" where
  "process_row r s =
     (let contract = Contract_Name r;
          zip_code = row_zip r;
          state_id = row_state_id r
      in if skipped r then s
         else
           let s1 = s\<lparr>contract_zip_map := dd_add (contract_zip_map s) contract zip_code\<rparr>;
               s2 = s1\<lparr>zip_contract_map := dd_add (zip_contract_map s1) zip_code contract\<rparr>;
               s3 = (if contract \<notin> set (keys (contract_info s2))
                     then s2\<lparr>contract_info :=
                            AList.update contract (new_info r) (contract_info s2)\<rparr>
                     else s2)
           in s3\<lparr>contract_info :=
                  AList.map_entry contract
                    (\<lambda>i. i\<lparr>zip_states := AList.update zip_code state_id (zip_states i)\<rparr>)
                    (contract_info s3)\<rparr>)"

definition process_chunk :: "row list \<Rightarrow> state \<Rightarrow> state" where
  "process_chunk chunk s = fold process_row chunk s"

subsection \<open>\<^verbatim>\<open>load_main_file\<close>\<close>

text \<open>
  A parsed CSV table (a pandas \<^verbatim>\<open>DataFrame\<close>): the header and the data rows, each a
  list of cells in column order. A cell that a short row does not have reads as
  \<open>NaN\<close>.
\<close>

record frame =
  columns :: "string list"
  data :: "cell list list"

definition cell_of :: "string list \<Rightarrow> cell list \<Rightarrow> string \<Rightarrow> cell" where
  "cell_of cols r name = (case map_of (zip cols r) name of None \<Rightarrow> NaN | Some v \<Rightarrow> v)"

definition column :: "frame \<Rightarrow> string \<Rightarrow> cell list" where
  "column f name = map (\<lambda>r. cell_of (columns f) r name) (data f)"

text \<open>
  The \<^verbatim>\<open>.str\<close> accessor of a column raises \<^verbatim>\<open>AttributeError\<close> unless the column
  holds text: pandas gives a column without any text value the type
  \<^verbatim>\<open>float64\<close>. A column of no rows at all has the type \<^verbatim>\<open>object\<close>.
\<close>

definition is_text_column :: "cell list \<Rightarrow> bool" where
  "is_text_column col \<longleftrightarrow> col = [] \<or> (\<exists>v \<in> set col. v \<noteq> NaN)"

definition str_accessor_error :: error where
  "str_accessor_error = AttributeError ''Can only use .str accessor with string values!''"

text \<open>One entry of \<^verbatim>\<open>col.str.lower() == 'active'\<close>.\<close>

definition is_active :: "cell \<Rightarrow> bool" where
  "is_active v = (case v of NaN \<Rightarrow> False | Str t \<Rightarrow> lower t = ''active'')"

text \<open>
  \<^verbatim>\<open>chunk = chunk[chunk[name].str.lower() == 'active']\<close> when the column is there.
  The type of the column is the one it had when the chunk was parsed, so it is
  passed on its own.
\<close>

definition keep_active :: "string \<Rightarrow> cell list \<Rightarrow> frame \<Rightarrow> error + frame" where
  "keep_active name parsed chunk =
     (if name \<in> set (columns chunk) then
        (if is_text_column parsed
         then Inr (chunk\<lparr>data := filter (\<lambda>r. is_active (cell_of (columns chunk) r name)) (data chunk)\<rparr>)
         else Inl str_accessor_error)
      else Inr chunk)"

text \<open>
  \<^verbatim>\<open>chunk.dropna(subset=['Contract Name', 'Zip Code'])\<close> raises \<^verbatim>\<open>KeyError\<close> when
  one of the two columns is missing. The rows it keeps have both cells present;
  they are returned as the rows \<^verbatim>\<open>chunk.iterrows()\<close> will hand to
  \<^verbatim>\<open>process_chunk\<close>.
\<close>

definition optional_cell :: "string list \<Rightarrow> cell list \<Rightarrow> string \<Rightarrow> cell option" where
  "optional_cell cols r name = (if name \<in> set cols then Some (cell_of cols r name) else None)"

definition row_of :: "string list \<Rightarrow> cell list \<Rightarrow> row option" where
  "row_of cols r =
     (case (cell_of cols r ''Contract Name'', cell_of cols r ''Zip Code'') of
        (Str contract, Str z) \<Rightarrow>
          Some \<lparr>Contract_Name = contract, Zip_Code = Str z,
                State_ID = optional_cell cols r ''State ID'',
                Buyer_Name = optional_cell cols r ''Buyer Name'',
                Buyer_ID = optional_cell cols r ''Buyer ID'',
                Vertical_Name = optional_cell cols r ''Vertical Name'',
                Contract_Status = optional_cell cols r ''Contract Status''\<rparr>
      | _ \<Rightarrow> None)"

definition dropna :: "frame \<Rightarrow> error + row list" where
  "dropna chunk =
     (if ''Contract Name'' \<in> set (columns chunk) \<and> ''Zip Code'' \<in> set (columns chunk)
      then Inr (List.map_filter (row_of (columns chunk)) (data chunk))
      else Inl (KeyError ''Contract Name, Zip Code''))"

text \<open>
  \<^verbatim>\<open>pd.read_csv(main_file, chunksize=chunk_size)\<close>: consecutive groups of at most
  \<open>chunk_size\<close> rows; a table of no rows comes as one empty chunk; a chunk size
  of zero is refused.
\<close>

function chunk_rows :: "nat \<Rightarrow> 'a list \<Rightarrow> 'a list list" where
  "chunk_rows n xs = (if n = 0 \<or> xs = [] then [] else take n xs # chunk_rows n (drop n xs))"
  by pat_completeness auto
termination
  by (relation "measure (\<lambda>(n, xs). length xs)") auto

declare chunk_rows.simps [simp del]

definition read_csv_chunks :: "frame \<Rightarrow> nat \<Rightarrow> error + frame list" where
  "read_csv_chunks f chunk_size =
     (if chunk_size = 0 then Inl (ValueError ''chunksize must be 1 or larger'')
      else if data f = [] then Inr [f]
      else Inr (map (\<lambda>rs. f\<lparr>data := rs\<rparr>) (chunk_rows chunk_size (data f))))"

text \<open>\<^verbatim>\<open>f"{n:,}"\<close>: decimal with thousands separators.\<close>

fun fmt_comma :: "nat \<Rightarrow> string" where
  "fmt_comma n =
     (if n < 1000 then str_nat n
      else fmt_comma (n div 1000) @ '','' @
           [digit (n mod 1000 div 100), digit (n mod 100 div 10), digit (n mod 10)])"

declare fmt_comma.simps [simp del]

text \<open>\<^verbatim>\<open>str(e)\<close> of a caught exception.\<close>

definition str_error :: "error \<Rightarrow> string" where
  "str_error e =
     (case e of
        KeyError k \<Rightarrow> [CHR 0x27] @ k @ [CHR 0x27]
      | ValueError m \<Rightarrow> m
      | AttributeError m \<Rightarrow> m
      | NameError m \<Rightarrow> m)"

text \<open>
  The loop \<^verbatim>\<open>for chunk in main_df\<close>, with its counters \<open>total_rows\<close>,
  \<open>active_rows\<close> and \<open>chunk_count\<close>. An exception leaves the loop with the
  session state as the chunks before it have made it.
\<close>

fun load_chunks ::
  "bool \<Rightarrow> frame list \<Rightarrow> nat \<times> nat \<times> nat \<Rightarrow> state \<Rightarrow> (error + nat \<times> nat \<times> nat) \<times> state"
where
  "load_chunks filter_active [] counters s = (Inr counters, s)"
| "load_chunks filter_active (parsed # rest) (total_rows, active_rows, chunk_count) s =
     (let chunk_count = chunk_count + 1;
          total_rows = total_rows + length (data parsed);
          chunk = parsed\<lparr>columns := map strip (columns parsed)\<rparr>;
          filtered =
            (if filter_active then
               (case keep_active ''Contract Status'' (column chunk ''Contract Status'') chunk of
                  Inl e \<Rightarrow> Inl e
                | Inr chunk' \<Rightarrow>
                    keep_active ''Buyer Status'' (column chunk ''Buyer Status'') chunk')
             else Inr chunk)
      in case filtered of
           Inl e \<Rightarrow> (Inl e, s)
         | Inr chunk \<Rightarrow>
             (case dropna chunk of
                Inl e \<Rightarrow> (Inl e, s)
              | Inr kept \<Rightarrow>
                  let active_rows = active_rows + length kept
                  in if kept = [] then
                       load_chunks filter_active rest (total_rows, active_rows, chunk_count) s
                     else
                       let s1 = process_chunk kept s;
                           s2 = (if chunk_count mod 10 = 0
                                 then log_message
                                        (''Processed '' @ str_nat chunk_count @ '' chunks...'') s1
                                 else s1)
                       in load_chunks filter_active rest
                            (total_rows, active_rows, chunk_count) s2))"

text \<open>
  \<^verbatim>\<open>load_main_file\<close>. Everything after the first log line is inside \<^verbatim>\<open>try\<close>; the
  handler logs the error. The result also says whether the load went through.
\<close>

definition load_main_file_run ::
  "frame \<Rightarrow> nat \<Rightarrow> bool \<Rightarrow> state \<Rightarrow> error option \<times> state" where
  "load_main_file_run main_file chunk_size filter_active s =
     (let s0 = log_message ''Starting to load main contracts file...'' s;
          s1 = s0\<lparr>contract_zip_map := [], zip_contract_map := [],
                  contract_info := [], output_files := []\<rparr>;
          failed = (\<lambda>e s'. (Some e, log_message (''Error loading main file: '' @ str_error e) s'))
      in case read_csv_chunks main_file chunk_size of
           Inl e \<Rightarrow> failed e s1
         | Inr main_df \<Rightarrow>
             (case load_chunks filter_active main_df (0, 0, 0) s1 of
                (Inl e, s2) \<Rightarrow> failed e s2
              | (Inr (total_rows, active_rows, chunk_count), s2) \<Rightarrow>
                  let total_contracts = length (contract_zip_map s2);
                      total_zips = length (zip_contract_map s2);
                      s3 = log_message ''Main file loaded successfully!'' s2;
                      s4 = log_message
                             (''Total rows: '' @ fmt_comma total_rows @
                              '', Active rows: '' @ fmt_comma active_rows) s3;
                      s5 = log_message
                             (''Contracts: '' @ fmt_comma total_contracts @
                              '', Unique ZIP codes: '' @ fmt_comma total_zips) s4
                  in (None, s5\<lparr>main_file_loaded := True\<rparr>)))"

definition load_main_file :: "frame \<Rightarrow> nat \<Rightarrow> bool \<Rightarrow> state \<Rightarrow> state" where
  "load_main_file main_file chunk_size filter_active s =
     snd (load_main_file_run main_file chunk_size filter_active s)"

subsection \<open>\<^verbatim>\<open>analyze_main_data\<close>\<close>

text \<open>
  \<^verbatim>\<open>df.sort_values(column, ascending=False)\<close> is pandas' code. It is called without
  \<^verbatim>\<open>kind\<close>, so pandas sorts with its default \<^verbatim>\<open>quicksort\<close>, which its documentation
  describes as not stable. The embedding therefore takes the sort as a parameter
  \<open>indexer\<close>: from the key column to the positions of the rows in their new order.
  What pandas promises about it is \<open>descending_indexer\<close>: the positions are a
  rearrangement of all positions and the keys come out in descending order.
\<close>

definition sort_values_desc :: "(nat list \<Rightarrow> nat list) \<Rightarrow> ('a \<Rightarrow> nat) \<Rightarrow> 'a list \<Rightarrow> 'a list" where
  "sort_values_desc indexer key rows =
     map (\<lambda>i. rows ! i) (filter (\<lambda>i. i < length rows) (indexer (map key rows)))"

definition descending_indexer :: "(nat list \<Rightarrow> nat list) \<Rightarrow> bool" where
  "descending_indexer indexer \<longleftrightarrow>
     (\<forall>ks. mset (indexer ks) = mset [0..<length ks] \<and>
           sorted (rev (map (\<lambda>i. ks ! i) (indexer ks))))"

text \<open>
  Two sorts that keep this promise. The first keeps rows of equal key in their
  former order, the second reverses them.
\<close>

definition stable_indexer :: "nat list \<Rightarrow> nat list" where
  "stable_indexer ks = rev (sort_key (\<lambda>i. ks ! i) (rev [0..<length ks]))"

definition reversing_indexer :: "nat list \<Rightarrow> nat list" where
  "reversing_indexer ks = rev (sort_key (\<lambda>i. ks ! i) [0..<length ks])"

text \<open>
  The inner loop \<^verbatim>\<open>for zip_code in zips\<close> of the summary, with its accumulators
  \<open>overlap_count\<close> and \<open>overlapping_contracts\<close>. The lookup in the
  \<^verbatim>\<open>defaultdict\<close> may change \<open>zip_contract_map\<close>.
\<close>

fun count_overlaps ::
  "string \<Rightarrow> string list \<Rightarrow> nat \<times> string list \<Rightarrow> state \<Rightarrow> (nat \<times> string list) \<times> state"
where
  "count_overlaps contract [] acc s = (acc, s)"
| "count_overlaps contract (zip_code # zips) (overlap_count, overlapping_contracts) s =
     (case dd_getitem (zip_contract_map s) zip_code of
        (cs, d) \<Rightarrow>
          let other_contracts = filter (\<lambda>c. c \<noteq> contract) cs
          in count_overlaps contract zips
               (overlap_count + length other_contracts,
                fold set_add other_contracts overlapping_contracts)
               (s\<lparr>zip_contract_map := d\<rparr>))"

text \<open>The loop \<^verbatim>\<open>for contract, zips in contract_zip_map.items()\<close> of the summary.\<close>

fun summary_loop ::
  "(string \<times> string list) list \<Rightarrow> summary_row list \<Rightarrow> state \<Rightarrow>
   (error + summary_row list) \<times> state"
where
  "summary_loop [] summary_data s = (Inr summary_data, s)"
| "summary_loop ((contract, zips) # items) summary_data s =
     (case getitem (contract_info s) contract of
        Inl e \<Rightarrow> (Inl e, s)
      | Inr ci \<Rightarrow>
          (case count_overlaps contract zips (0, []) s of
             ((overlap_count, overlapping_contracts), s') \<Rightarrow>
               summary_loop items
                 (summary_data @
                  [\<lparr>sm_contract = contract,
                    sm_buyer_name = buyer_name ci,
                    sm_buyer_id = buyer_id ci,
                    sm_vertical_name = vertical_name ci,
                    sm_contract_status = contract_status ci,
                    total_zip_codes = length zips,
                    total_zip_matches = overlap_count,
                    unique_overlapping = length overlapping_contracts\<rparr>])
                 s'))"

text \<open>
  The active counts of the summary: the rows whose status is \<open>active\<close> in any
  case, and the distinct buyer names among them.
\<close>

definition active_counts :: "summary_row list \<Rightarrow> error + (string \<times> nat) list" where
  "active_counts summary_df =
     (if is_text_column (map sm_contract_status summary_df) then
        (let active = filter (\<lambda>r. is_active (sm_contract_status r)) summary_df
         in Inr [(''Active Contracts'', length active),
                 (''Active Buyers'', length (remdups (map sm_buyer_name active)))])
      else Inl str_accessor_error)"

text \<open>The detailed view: the loop \<^verbatim>\<open>for zip_code in sorted(zips)\<close> and the loop around it.\<close>

fun detail_zips ::
  "string \<Rightarrow> info \<Rightarrow> string list \<Rightarrow> detail_row list \<Rightarrow> state \<Rightarrow> detail_row list \<times> state"
where
  "detail_zips contract ci [] detailed_data s = (detailed_data, s)"
| "detail_zips contract ci (zip_code # zips) detailed_data s =
     (case dd_getitem (zip_contract_map s) zip_code of
        (cs, d) \<Rightarrow>
          let other_contracts = filter (\<lambda>c. c \<noteq> contract) cs;
              match_string =
                (if other_contracts \<noteq> [] then join_comma (sort other_contracts) else []);
              state_id = (case map_of (zip_states ci) zip_code of None \<Rightarrow> [] | Some v \<Rightarrow> v)
          in detail_zips contract ci zips
               (detailed_data @
                [\<lparr>dt_contract = contract,
                  dt_buyer_name = buyer_name ci,
                  dt_buyer_id = buyer_id ci,
                  dt_vertical_name = vertical_name ci,
                  dt_contract_status = contract_status ci,
                  dt_state_id = state_id,
                  dt_zip_code = zip_code,
                  dt_match = match_string\<rparr>])
               (s\<lparr>zip_contract_map := d\<rparr>))"

fun detail_loop ::
  "(string \<times> string list) list \<Rightarrow> detail_row list \<Rightarrow> state \<Rightarrow>
   (error + detail_row list) \<times> state"
where
  "detail_loop [] detailed_data s = (Inr detailed_data, s)"
| "detail_loop ((contract, zips) # items) detailed_data s =
     (case getitem (contract_info s) contract of
        Inl e \<Rightarrow> (Inl e, s)
      | Inr ci \<Rightarrow>
          (case detail_zips contract ci (sort zips) detailed_data s of
             (detailed_data', s') \<Rightarrow> detail_loop items detailed_data' s'))"

text \<open>
  \<^verbatim>\<open>Counter\<close>: \<^verbatim>\<open>counts[k] += n\<close>. The match counts of the detailed view split
  the match string of every row again.
\<close>

definition counter_add :: "(string \<times> nat) list \<Rightarrow> string \<Rightarrow> nat \<Rightarrow> (string \<times> nat) list" where
  "counter_add counts k n =
     AList.update k ((case map_of counts k of None \<Rightarrow> 0 | Some m \<Rightarrow> m) + n) counts"

definition count_matches :: "detail_row \<Rightarrow> (string \<times> nat) list \<Rightarrow> (string \<times> nat) list" where
  "count_matches row counts =
     (if dt_match row \<noteq> []
      then counter_add counts (dt_contract row) (length (split_comma (dt_match row)))
      else counts)"

definition contract_match_counts :: "detail_row list \<Rightarrow> (string \<times> nat) list" where
  "contract_match_counts detailed_df = fold count_matches detailed_df []"

text \<open>The value a \<^verbatim>\<open>Counter\<close> gives for a key: zero when it has no entry.\<close>

definition counter_get :: "(string \<times> nat) list \<Rightarrow> string \<Rightarrow> nat" where
  "counter_get counts k = (case map_of counts k of None \<Rightarrow> 0 | Some m \<Rightarrow> m)"

text \<open>The log lines of the ten first rows of a table of match counts.\<close>

definition top_line :: "nat \<times> string \<times> nat \<Rightarrow> string" where
  "top_line e =
     (case e of (i, contract, n) \<Rightarrow>
        str_nat (i + 1) @ ''. '' @ contract @ '': '' @ str_nat n @ '' matches'')"

definition log_top10 :: "(string \<times> nat) list \<Rightarrow> state \<Rightarrow> state" where
  "log_top10 match_counts_df s =
     fold (\<lambda>e. log_message (top_line e))
       (zip [0..<length (take 10 match_counts_df)] (take 10 match_counts_df))
       (log_message ''Top 10 contracts by ZIP matches:'' s)"

text \<open>\<^verbatim>\<open>range(i, n, step)\<close> for a positive step.\<close>

function range_step :: "nat \<Rightarrow> nat \<Rightarrow> nat \<Rightarrow> nat list" where
  "range_step i n step = (if 0 < step \<and> i < n then i # range_step (i + step) n step else [])"
  by pat_completeness auto
termination
  by (relation "measure (\<lambda>(i, n, step). n - i)") auto

declare range_step.simps [simp del]

definition batch_size :: nat where
  "batch_size = 20"

text \<open>The sheet name of a contract: separators replaced, brackets removed, cut to 31.\<close>

definition sheet_name :: "string \<Rightarrow> string" where
  "sheet_name contract =
     take 31
       (filter (\<lambda>c. c \<noteq> CHR ''['' \<and> c \<noteq> CHR '']'')
          (map (\<lambda>c. if c = CHR ''/'' \<or> c = CHR 0x5C then CHR ''_'' else c) contract))"

text \<open>
  The sheets written into the workbook of one batch, in the order of the
  \<^verbatim>\<open>to_excel\<close> calls. The spreadsheet writer is outside the repository; the
  embedding records what it is given.
\<close>

definition batch_workbook :: "detail_row list \<Rightarrow> string list \<Rightarrow> workbook" where
  "batch_workbook detailed_df batch_contracts =
     concat (map (\<lambda>contract.
                    let contract_data = filter (\<lambda>r. dt_contract r = contract) detailed_df
                    in if contract_data \<noteq> []
                       then [(sheet_name contract, Detail_Sheet contract_data)] else [])
                 batch_contracts)"

definition batch_file_name :: "nat \<Rightarrow> string" where
  "batch_file_name batch_num = ''contract_matches_batch_'' @ str_nat batch_num @ ''.xlsx''"

text \<open>
  The loop \<^verbatim>\<open>for i in range(0, len(contracts_with_matches), batch_size)\<close>. The
  variable \<open>batch_num\<close> is unbound until the body has run once.
\<close>

fun export_batches ::
  "detail_row list \<Rightarrow> string list \<Rightarrow> nat list \<Rightarrow> nat option \<Rightarrow> state \<Rightarrow> nat option \<times> state"
where
  "export_batches detailed_df contracts_with_matches [] batch_num s = (batch_num, s)"
| "export_batches detailed_df contracts_with_matches (i # rest) unused s =
     (let batch_contracts = take batch_size (drop i contracts_with_matches);
          batch_num = i div batch_size + 1;
          s1 = log_message
                 (''Exported batch '' @ str_nat batch_num @ '' with '' @
                  str_nat (length batch_contracts) @ '' contracts'') s;
          s2 = s1\<lparr>output_files :=
                    AList.update (batch_file_name batch_num)
                      (batch_workbook detailed_df batch_contracts) (output_files s1)\<rparr>
      in export_batches detailed_df contracts_with_matches rest (Some batch_num) s2)"

text \<open>The contract lists of the batches, one for each run of the loop body.\<close>

definition contracts_with_matches :: "summary_row list \<Rightarrow> string list" where
  "contracts_with_matches summary_df =
     map sm_contract (filter (\<lambda>r. 0 < unique_overlapping r) summary_df)"

definition batches :: "string list \<Rightarrow> string list list" where
  "batches cwm =
     map (\<lambda>i. take batch_size (drop i cwm)) (range_step 0 (length cwm) batch_size)"

text \<open>
  The three parts of the body of \<^verbatim>\<open>analyze_main_data\<close>: the contract summary, the
  detailed view, the batch files. Each returns the error that ended it, if any, and
  the session state as it left it.
\<close>

definition summary_part ::
  "(nat list \<Rightarrow> nat list) \<Rightarrow> state \<Rightarrow>
   (error + summary_row list \<times> (string \<times> nat) list) \<times> state" where
  "summary_part indexer s =
     (let s1 = log_message ''Generating contract summary...'' s
      in case summary_loop (contract_zip_map s1) [] s1 of
           (Inl e, s2) \<Rightarrow> (Inl e, s2)
         | (Inr summary_data, s2) \<Rightarrow>
             if summary_data = [] then (Inl (KeyError ''Total ZIP Codes''), s2)
             else
               let summary_df = sort_values_desc indexer total_zip_codes summary_data
               in case active_counts summary_df of
                    Inl e \<Rightarrow> (Inl e, s2)
                  | Inr active_counts_df \<Rightarrow>
                      let s3 = log_message
                                 (''Contract summary exported: '' @
                                  str_nat (length summary_df) @ '' contracts'') s2;
                          s4 = log_message
                                 (''Active counts: '' @ str_nat (snd (active_counts_df ! 0)) @
                                  '' contracts, '' @ str_nat (snd (active_counts_df ! 1)) @
                                  '' buyers'') s3;
                          s5 = s4\<lparr>output_files :=
                                    AList.update ''contract_summary.xlsx''
                                      [(''Contract Summary'', Summary_Sheet summary_df),
                                       (''Active Counts'', Count_Sheet active_counts_df)]
                                      (output_files s4)\<rparr>
                      in (Inr (summary_df, active_counts_df), s5))"

definition detailed_part ::
  "(nat list \<Rightarrow> nat list) \<Rightarrow> (string \<times> nat) list \<Rightarrow> state \<Rightarrow>
   (error + detail_row list) \<times> state" where
  "detailed_part indexer active_counts_df s =
     (let s1 = log_message ''Generating detailed matches view...'' s
      in case detail_loop (contract_zip_map s1) [] s1 of
           (Inl e, s2) \<Rightarrow> (Inl e, s2)
         | (Inr detailed_df, s2) \<Rightarrow>
             let match_counts_df =
                   sort_values_desc indexer snd (contract_match_counts detailed_df);
                 s3 = log_message
                        (''Detailed matches exported: '' @
                         fmt_comma (length detailed_df) @ '' rows'') s2;
                 s4 = log_message
                        (''Contract match counts exported: '' @
                         str_nat (length match_counts_df) @ '' contracts'') s3;
                 s5 = s4\<lparr>output_files :=
                           AList.update ''detailed_contract_zip_matches.xlsx''
                             [(''Detailed Matches'', Detail_Sheet detailed_df),
                              (''Contract Match Counts'', Count_Sheet match_counts_df),
                              (''Active Counts'', Count_Sheet active_counts_df)]
                             (output_files s4)\<rparr>
             in (Inr detailed_df, log_top10 match_counts_df s5))"

definition batch_part :: "summary_row list \<Rightarrow> detail_row list \<Rightarrow> state \<Rightarrow> error option \<times> state" where
  "batch_part summary_df detailed_df s =
     (let s1 = log_message ''Exporting individual contract sheets...'' s;
          cwm = contracts_with_matches summary_df
      in case export_batches detailed_df cwm (range_step 0 (length cwm) batch_size) None s1 of
           (None, s2) \<Rightarrow> (Some (NameError ''batch_num''), s2)
         | (Some batch_num, s2) \<Rightarrow>
             (None,
              log_message ''Main analysis completed successfully!''
                (log_message
                   (''Exported '' @ str_nat (length cwm) @ '' individual contract sheets in '' @
                    str_nat batch_num @ '' batch file(s)'') s2)))"

text \<open>
  \<^verbatim>\<open>analyze_main_data\<close>: the three parts in turn inside \<^verbatim>\<open>try\<close>; the handler
  logs the error.
\<close>

definition analyze_main_data_run :: "(nat list \<Rightarrow> nat list) \<Rightarrow> state \<Rightarrow> error option \<times> state" where
  "analyze_main_data_run indexer s =
     (let failed = (\<lambda>e s'. (Some e, log_message (''Error in main analysis: '' @ str_error e) s'))
      in case summary_part indexer (log_message ''Starting main analysis...'' s) of
           (Inl e, s1) \<Rightarrow> failed e s1
         | (Inr (summary_df, active_counts_df), s1) \<Rightarrow>
             (case detailed_part indexer active_counts_df s1 of
                (Inl e, s2) \<Rightarrow> failed e s2
              | (Inr detailed_df, s2) \<Rightarrow>
                  (case batch_part summary_df detailed_df s2 of
                     (Some e, s3) \<Rightarrow> failed e s3
                   | (None, s3) \<Rightarrow> (None, s3))))"

definition analyze_main_data :: "(nat list \<Rightarrow> nat list) \<Rightarrow> state \<Rightarrow> state" where
  "analyze_main_data indexer s = snd (analyze_main_data_run indexer s)"

subsection \<open>\<^verbatim>\<open>analyze_new_zips\<close>\<close>

text \<open>The first column whose name, in lower case, contains \<open>zip\<close>.\<close>

definition find_zip_col :: "string list \<Rightarrow> string option" where
  "find_zip_col cols = find (\<lambda>col. contains ''zip'' (lower col)) cols"

text \<open>\<^verbatim>\<open>Series.unique()\<close>: the values in the order of their first occurrence.\<close>

definition unique :: "'a list \<Rightarrow> 'a list" where
  "unique xs = rev (remdups (rev xs))"

text \<open>\<^verbatim>\<open>new_zip_df[zip_col].astype(str).str.strip().unique()\<close>.\<close>

definition new_zip_codes :: "frame \<Rightarrow> string \<Rightarrow> string list" where
  "new_zip_codes new_zip_df zip_col = unique (map (\<lambda>v. strip (str v)) (column new_zip_df zip_col))"

text \<open>
  The loop \<^verbatim>\<open>for contract in matching_contracts\<close>. The lookup of the contract in
  \<open>contract_info\<close> raises on a missing key; the lookup in the \<^verbatim>\<open>defaultdict\<close>
  \<open>contract_zip_map\<close> may insert one.
\<close>

fun match_contracts ::
  "string \<Rightarrow> string list \<Rightarrow> match_row list \<Rightarrow> state \<Rightarrow> (error + match_row list) \<times> state"
where
  "match_contracts zip_code [] match_results s = (Inr match_results, s)"
| "match_contracts zip_code (contract # rest) match_results s =
     (case getitem (contract_info s) contract of
        Inl e \<Rightarrow> (Inl e, s)
      | Inr ci \<Rightarrow>
          let state_id = (case map_of (zip_states ci) zip_code of None \<Rightarrow> [] | Some v \<Rightarrow> v)
          in case dd_getitem (contract_zip_map s) contract of
               (zs, d) \<Rightarrow>
                 match_contracts zip_code rest
                   (match_results @
                    [\<lparr>new_zip_code = zip_code,
                      mt_state_id = state_id,
                      matching_contract = contract,
                      mt_buyer_name = buyer_name ci,
                      mt_buyer_id = buyer_id ci,
                      mt_vertical_name = vertical_name ci,
                      mt_contract_status = contract_status ci,
                      contract_total_zips = length zs\<rparr>])
                   (s\<lparr>contract_zip_map := d\<rparr>))"

text \<open>The loop \<^verbatim>\<open>for zip_code in new_zips\<close>.\<close>

fun match_zips ::
  "string list \<Rightarrow> match_row list \<Rightarrow> state \<Rightarrow> (error + match_row list) \<times> state"
where
  "match_zips [] match_results s = (Inr match_results, s)"
| "match_zips (zip_code # rest) match_results s =
     (if zip_code \<in> set (keys (zip_contract_map s)) then
        (case dd_getitem (zip_contract_map s) zip_code of
           (matching_contracts, d) \<Rightarrow>
             (case match_contracts zip_code matching_contracts match_results
                     (s\<lparr>zip_contract_map := d\<rparr>) of
                (Inl e, s') \<Rightarrow> (Inl e, s')
              | (Inr match_results', s') \<Rightarrow> match_zips rest match_results' s'))
      else match_zips rest match_results s)"

text \<open>\<^verbatim>\<open>Counter(match_df['Matching Contract'])\<close>.\<close>

definition count_contracts :: "match_row list \<Rightarrow> (string \<times> nat) list" where
  "count_contracts match_df =
     fold (\<lambda>row counts. counter_add counts (matching_contract row) 1) match_df []"

text \<open>The active counts of a match table.\<close>

definition active_match_counts :: "match_row list \<Rightarrow> error + (string \<times> nat) list" where
  "active_match_counts match_df =
     (if is_text_column (map mt_contract_status match_df) then
        (let active_match_df = filter (\<lambda>r. is_active (mt_contract_status r)) match_df
         in Inr [(''Active Contracts'', length (unique (map matching_contract active_match_df))),
                 (''Active Buyers'', length (unique (map mt_buyer_name active_match_df)))])
      else Inl str_accessor_error)"

text \<open>The branch \<^verbatim>\<open>if match_results:\<close>, which exports the match report.\<close>

definition export_matches ::
  "(nat list \<Rightarrow> nat list) \<Rightarrow> string list \<Rightarrow> match_row list \<Rightarrow> state \<Rightarrow> error option \<times> state"
where
  "export_matches indexer new_zips match_df s =
     (let match_counts_df = sort_values_desc indexer snd (count_contracts match_df)
      in case active_match_counts match_df of
           Inl e \<Rightarrow> (Some e, s)
         | Inr active_counts_df \<Rightarrow>
             let total_new_zips = length new_zips;
                 matched_zips = length (unique (map new_zip_code match_df));
                 total_matches = length match_df;
                 unique_contracts = length (unique (map matching_contract match_df));
                 s1 = log_message ''New ZIP analysis completed!'' s;
                 s2 = log_message (''Total new ZIP codes: '' @ str_nat total_new_zips) s1;
                 s3 = log_message (''ZIP codes with matches: '' @ str_nat matched_zips) s2;
                 s4 = log_message (''Total matches found: '' @ str_nat total_matches) s3;
                 s5 = log_message (''Unique contracts matched: '' @ str_nat unique_contracts) s4;
                 s6 = log_message
                        (''Active counts: '' @ str_nat (snd (active_counts_df ! 0)) @
                         '' contracts, '' @ str_nat (snd (active_counts_df ! 1)) @
                         '' buyers'') s5;
                 s7 = log_message ''Results exported to: new_zip_matches.xlsx'' s6;
                 s8 = log_top10 match_counts_df s7
             in (None,
                 s8\<lparr>output_files :=
                      AList.update ''new_zip_matches.xlsx''
                        [(''ZIP Matches'', Match_Sheet match_df),
                         (''Contract Match Counts'', Count_Sheet match_counts_df),
                         (''Active Counts'', Count_Sheet active_counts_df)]
                        (output_files s8)\<rparr>))"

definition no_zip_column :: error where
  "no_zip_column =
     ValueError (''No ZIP code column found. Expected column containing '' @
                 [CHR 0x27] @ ''zip'' @ [CHR 0x27])"

definition no_matches_message :: string where
  "no_matches_message = ''No matches found for the new ZIP codes.''"

text \<open>
  \<^verbatim>\<open>analyze_new_zips\<close>, on the parsed file. The result holds the error that the
  handler caught, if any, the match rows as far as the loop got, and the session
  state.
\<close>

definition analyze_new_zips_run ::
  "(nat list \<Rightarrow> nat list) \<Rightarrow> frame \<Rightarrow> state \<Rightarrow> (error option \<times> match_row list) \<times> state" where
  "analyze_new_zips_run indexer new_zip_file s =
     (let failed = (\<lambda>e rows s'.
            ((Some e, rows), log_message (''Error analyzing new ZIP codes: '' @ str_error e) s'));
          s1 = log_message ''Loading new ZIP codes file...'' s;
          new_zip_df = new_zip_file\<lparr>columns := map strip (columns new_zip_file)\<rparr>
      in case find_zip_col (columns new_zip_df) of
           None \<Rightarrow> failed no_zip_column [] s1
         | Some zip_col \<Rightarrow>
             let s2 = log_message
                        (''Found '' @ str_nat (length (data new_zip_df)) @
                         '' new ZIP codes to analyze'') s1;
                 s3 = log_message ''Matching new ZIP codes against active contracts...'' s2;
                 new_zips = new_zip_codes new_zip_df zip_col
             in case match_zips new_zips [] s3 of
                  (Inl e, s4) \<Rightarrow> failed e [] s4
                | (Inr match_results, s4) \<Rightarrow>
                    if match_results \<noteq> [] then
                      (case export_matches indexer new_zips match_results s4 of
                         (Some e, s5) \<Rightarrow> failed e match_results s5
                       | (None, s5) \<Rightarrow> ((None, match_results), s5))
                    else ((None, []), log_message no_matches_message s4))"

definition analyze_new_zips :: "(nat list \<Rightarrow> nat list) \<Rightarrow> frame \<Rightarrow> state \<Rightarrow> state" where
  "analyze_new_zips indexer new_zip_file s = snd (analyze_new_zips_run indexer new_zip_file s)"

subsection \<open>The states of a session\<close>

text \<open>
  A session starts in \<open>init\<close> and goes on by calls of the four methods, in any
  order and with any arguments.
\<close>

inductive reachable :: "state \<Rightarrow> bool" where
  start: "reachable init"
| chunk: "reachable s \<Longrightarrow> reachable (process_chunk rows s)"
| load: "reachable s \<Longrightarrow> reachable (load_main_file main_file chunk_size filter_active s)"
| main: "reachable s \<Longrightarrow> reachable (analyze_main_data indexer s)"
| zips: "reachable s \<Longrightarrow> reachable (analyze_new_zips indexer new_zip_file s)"

section \<open>Invariants of the index\<close>

text \<open>
  Bidirectional consistency: contract \<open>c\<close> is in the set stored for ZIP \<open>z\<close>
  exactly when \<open>z\<close> is in the set stored for \<open>c\<close>.
\<close>

definition bidirectional :: "state \<Rightarrow> bool" where
  "bidirectional s \<longleftrightarrow>
     (\<forall>c z. c \<in> members (zip_contract_map s) z \<longleftrightarrow> z \<in> members (contract_zip_map s) c)"

text \<open>Sample rows: contracts \<open>C1\<close> and \<open>C2\<close> on \<open>ZIP1\<close>, contract \<open>C3\<close> on \<open>ZIP2\<close>.\<close>

definition sample_row :: "string \<Rightarrow> string \<Rightarrow> string \<Rightarrow> row" where
  "sample_row contract z state_id =
     \<lparr>Contract_Name = contract, Zip_Code = Str z, State_ID = Some (Str state_id),
      Buyer_Name = Some (Str ''Buyer''), Buyer_ID = Some (Str ''7''),
      Vertical_Name = Some (Str ''Solar''), Contract_Status = Some (Str ''Active'')\<rparr>"

definition scenario_rows :: "row list" where
  "scenario_rows =
     [sample_row ''C1'' ''ZIP1'' ''CA'', sample_row ''C2'' ''ZIP1'' ''CA'',
      sample_row ''C3'' ''ZIP2'' ''NV'']"

text \<open>The value of a \<^verbatim>\<open>defaultdict(set)\<close> at a key, without the insertion.\<close>

definition lookup :: "('k \<times> 'a list) list \<Rightarrow> 'k \<Rightarrow> 'a list" where
  "lookup d k = (case map_of d k of None \<Rightarrow> [] | Some v \<Rightarrow> v)"

text \<open>
  The representation is sound: keys occur once, and a stored set lists each of
  its elements once.
\<close>

definition wf_dd :: "('k \<times> 'a list) list \<Rightarrow> bool" where
  "wf_dd d \<longleftrightarrow> distinct (keys d) \<and> (\<forall>k. distinct (lookup d k))"

text \<open>
  Every indexed contract has its metadata, and the metadata has a state id for
  each ZIP of the contract.
\<close>

definition info_ok :: "state \<Rightarrow> bool" where
  "info_ok s \<longleftrightarrow>
     distinct (keys (contract_info s)) \<and>
     (\<forall>c \<in> set (keys (contract_zip_map s)).
        \<exists>ci. map_of (contract_info s) c = Some ci \<and>
             set (lookup (contract_zip_map s) c) \<subseteq> set (keys (zip_states ci)))"

definition index_ok :: "state \<Rightarrow> bool" where
  "index_ok s \<longleftrightarrow>
     wf_dd (contract_zip_map s) \<and> wf_dd (zip_contract_map s) \<and> bidirectional s \<and> info_ok s"

text \<open>What the index stores for a contract, and for a pair of contract and ZIP.\<close>

definition metadata :: "info \<Rightarrow> cell \<times> cell \<times> cell \<times> cell" where
  "metadata ci = (buyer_name ci, buyer_id ci, vertical_name ci, contract_status ci)"

definition stored_metadata :: "state \<Rightarrow> string \<Rightarrow> (cell \<times> cell \<times> cell \<times> cell) option" where
  "stored_metadata s c = map_option metadata (map_of (contract_info s) c)"

definition stored_state_id :: "state \<Rightarrow> string \<Rightarrow> string \<Rightarrow> string option" where
  "stored_state_id s c z =
     (case map_of (contract_info s) c of None \<Rightarrow> None | Some ci \<Rightarrow> map_of (zip_states ci) z)"

text \<open>A later row of contract \<open>C1\<close> on \<open>ZIP1\<close> with another buyer and state id.\<close>

definition other_buyer_row :: row where
  "other_buyer_row = (sample_row ''C1'' ''ZIP1'' ''NY'')\<lparr>Buyer_Name := Some (Str ''Other'')\<rparr>"

text \<open>
  The match row of a ZIP and a contract, and the match rows of a ZIP, read from the
  index without changing it.
\<close>

definition match_entry :: "state \<Rightarrow> string \<Rightarrow> string \<Rightarrow> match_row" where
  "match_entry s zip_code contract =
     (let ci = the (map_of (contract_info s) contract)
      in \<lparr>new_zip_code = zip_code,
          mt_state_id = (case map_of (zip_states ci) zip_code of None \<Rightarrow> [] | Some v \<Rightarrow> v),
          matching_contract = contract,
          mt_buyer_name = buyer_name ci,
          mt_buyer_id = buyer_id ci,
          mt_vertical_name = vertical_name ci,
          mt_contract_status = contract_status ci,
          contract_total_zips = length (lookup (contract_zip_map s) contract)\<rparr>)"

definition zip_entries :: "state \<Rightarrow> string \<Rightarrow> match_row list" where
  "zip_entries s zip_code =
     (if zip_code \<in> set (keys (zip_contract_map s))
      then map (match_entry s zip_code) (lookup (zip_contract_map s) zip_code) else [])"

text \<open>Two states hold the same index.\<close>

definition same_index :: "state \<Rightarrow> state \<Rightarrow> bool" where
  "same_index s s' \<longleftrightarrow>
     contract_zip_map s' = contract_zip_map s \<and> zip_contract_map s' = zip_contract_map s \<and>
     contract_info s' = contract_info s"

text \<open>
  What the loops of \<^verbatim>\<open>analyze_main_data\<close> compute, read from the index without
  changing it: the other contracts on a ZIP, the two overlap figures of a contract,
  its summary row and its detail rows.
\<close>

definition other_contracts :: "state \<Rightarrow> string \<Rightarrow> string \<Rightarrow> string list" where
  "other_contracts s contract zip_code =
     filter (\<lambda>c. c \<noteq> contract) (lookup (zip_contract_map s) zip_code)"

definition overlap_count :: "state \<Rightarrow> string \<Rightarrow> string list \<Rightarrow> nat" where
  "overlap_count s contract zips =
     sum_list (map (\<lambda>z. length (other_contracts s contract z)) zips)"

definition overlapping_contracts :: "state \<Rightarrow> string \<Rightarrow> string list \<Rightarrow> string list" where
  "overlapping_contracts s contract zips =
     fold (\<lambda>z. fold set_add (other_contracts s contract z)) zips []"

definition summary_entry :: "state \<Rightarrow> string \<times> string list \<Rightarrow> summary_row" where
  "summary_entry s item =
     (case item of (contract, zips) \<Rightarrow>
        let ci = the (map_of (contract_info s) contract)
        in \<lparr>sm_contract = contract,
            sm_buyer_name = buyer_name ci,
            sm_buyer_id = buyer_id ci,
            sm_vertical_name = vertical_name ci,
            sm_contract_status = contract_status ci,
            total_zip_codes = length zips,
            total_zip_matches = overlap_count s contract zips,
            unique_overlapping = length (overlapping_contracts s contract zips)\<rparr>)"

definition detail_entry :: "state \<Rightarrow> string \<Rightarrow> string \<Rightarrow> detail_row" where
  "detail_entry s contract zip_code =
     (let ci = the (map_of (contract_info s) contract)
      in \<lparr>dt_contract = contract,
          dt_buyer_name = buyer_name ci,
          dt_buyer_id = buyer_id ci,
          dt_vertical_name = vertical_name ci,
          dt_contract_status = contract_status ci,
          dt_state_id = (case map_of (zip_states ci) zip_code of None \<Rightarrow> [] | Some v \<Rightarrow> v),
          dt_zip_code = zip_code,
          dt_match = (if other_contracts s contract zip_code \<noteq> []
                      then join_comma (sort (other_contracts s contract zip_code)) else [])\<rparr>)"

definition detail_entries :: "state \<Rightarrow> string \<times> string list \<Rightarrow> detail_row list" where
  "detail_entries s item = (case item of (contract, zips) \<Rightarrow> map (detail_entry s contract) (sort zips))"

text \<open>The index of the sample rows, and a query file with a repeated and an unknown ZIP.\<close>

definition scenario_state :: state where
  "scenario_state = process_chunk scenario_rows init"

definition query_file :: frame where
  "query_file = \<lparr>columns = ['' Zip Code ''], data = [[Str ''ZIP1''], [Str '' ZIP9''], [Str ''ZIP1 '']]\<rparr>"

text \<open>The match rows that a call of \<^verbatim>\<open>analyze_new_zips\<close> has collected.\<close>

definition match_rows :: "(nat list \<Rightarrow> nat list) \<Rightarrow> frame \<Rightarrow> state \<Rightarrow> match_row list" where
  "match_rows indexer new_zip_file s = snd (fst (analyze_new_zips_run indexer new_zip_file s))"

text \<open>
  A main file with one contract, whose status cell is empty, and a query file with
  the ZIP of that contract.
\<close>

definition nan_status_file :: frame where
  "nan_status_file =
     \<lparr>columns = [''Contract Name'', ''Zip Code'', ''Contract Status''],
      data = [[Str ''C1'', Str ''12345'', NaN]]\<rparr>"

definition nan_status_query :: frame where
  "nan_status_query = \<lparr>columns = [''Zip Code''], data = [[Str ''12345'']]\<rparr>"

text \<open>A sheet of a generated workbook, and the match figures of a summary sheet.\<close>

definition sheet_of :: "state \<Rightarrow> string \<Rightarrow> string \<Rightarrow> sheet option" where
  "sheet_of s file name =
     (case map_of (output_files s) file of None \<Rightarrow> None | Some wb \<Rightarrow> map_of wb name)"

definition summary_matches :: "sheet option \<Rightarrow> (string \<times> nat) list" where
  "summary_matches sh =
     (case sh of
        Some (Summary_Sheet summary_df) \<Rightarrow>
          map (\<lambda>r. (sm_contract r, total_zip_matches r)) summary_df
      | _ \<Rightarrow> [])"

text \<open>A main file with two contracts on one ZIP; the name of one holds a comma and a space.\<close>

definition comma_file :: frame where
  "comma_file =
     \<lparr>columns = [''Contract Name'', ''Zip Code'', ''Contract Status''],
      data = [[Str ''A'', Str ''10001'', Str ''Active''],
              [Str ''B, C'', Str ''10001'', Str ''Active'']]\<rparr>"

section \<open>Properties\<close>

subsection \<open>Insertion into the two maps\<close>

lemma members_dd_add:
  "members (dd_add d k x) k' = (if k' = k then insert x (members d k) else members d k')"
  by (auto simp: dd_add_def dd_getitem_def members_def set_add_def AList.update_conv'
           split: option.splits)

lemma process_row_maps:
  "\<not> skipped r \<Longrightarrow>
   contract_zip_map (process_row r s) = dd_add (contract_zip_map s) (Contract_Name r) (row_zip r) \<and>
   zip_contract_map (process_row r s) = dd_add (zip_contract_map s) (row_zip r) (Contract_Name r)"
  by (simp add: process_row_def Let_def)

lemma process_row_skipped: "skipped r \<Longrightarrow> process_row r s = s"
  by (simp add: process_row_def)

lemma bidirectional_process_row: "bidirectional s \<Longrightarrow> bidirectional (process_row r s)"
proof (cases "skipped r")
  case True
  then show "bidirectional s \<Longrightarrow> ?thesis" by (simp add: process_row_skipped)
next
  case False
  assume "bidirectional s"
  then show ?thesis
    using process_row_maps [OF False, of s]
    by (auto simp: bidirectional_def members_dd_add)
qed

lemma bidirectional_process_chunk: "bidirectional s \<Longrightarrow> bidirectional (process_chunk chunk s)"
  unfolding process_chunk_def
  by (induction chunk arbitrary: s) (auto simp: bidirectional_process_row)

lemma bidirectional_log [simp]: "bidirectional (log_message m s) = bidirectional s"
  by (simp add: bidirectional_def log_message_def)

lemma bidirectional_load_chunks:
  "bidirectional s \<Longrightarrow> bidirectional (snd (load_chunks fa chunks cnt s))"
proof (induction fa chunks cnt s rule: load_chunks.induct)
  case (1 fa counters s)
  then show ?case by simp
next
  case (2 fa parsed rest total_rows active_rows chunk_count s)
  show ?case
    using "2.prems" "2.IH"
    apply (simp only: load_chunks.simps Let_def)
    apply (auto split: sum.splits if_splits simp: bidirectional_process_chunk)
    done
qed

lemma bidirectional_cleared:
  "bidirectional (s\<lparr>contract_zip_map := [], zip_contract_map := [],
                    contract_info := ci, output_files := out\<rparr>)"
  by (simp add: bidirectional_def members_def)

lemma bidirectional_loaded [simp]:
  "bidirectional (s\<lparr>main_file_loaded := b\<rparr>) = bidirectional s"
  by (simp add: bidirectional_def)

lemma bidirectional_load_main_file:
  "bidirectional (load_main_file main_file chunk_size filter_active s)"
proof -
  let ?s1 = "(log_message ''Starting to load main contracts file...'' s)
               \<lparr>contract_zip_map := [], zip_contract_map := [],
                contract_info := [], output_files := []\<rparr>"
  have clear: "bidirectional ?s1" by (rule bidirectional_cleared)
  have loop: "bidirectional (snd (load_chunks filter_active chunks (0, 0, 0) ?s1))" for chunks
    using clear by (rule bidirectional_load_chunks)
  show ?thesis
  proof (cases "read_csv_chunks main_file chunk_size")
    case (Inl e)
    then show ?thesis
      using clear by (simp add: load_main_file_def load_main_file_run_def Let_def)
  next
    case (Inr main_df)
    obtain res s2 where run: "load_chunks filter_active main_df (0, 0, 0) ?s1 = (res, s2)"
      by (cases "load_chunks filter_active main_df (0, 0, 0) ?s1")
    with loop [of main_df] have "bidirectional s2" by simp
    with Inr run show ?thesis
      by (cases res) (auto simp: load_main_file_def load_main_file_run_def Let_def)
  qed
qed

lemma bidirectional_init: "bidirectional init"
  by (simp add: bidirectional_def init_def members_def)

subsection \<open>The invariant of the index\<close>

lemma keys_dd_add: "keys (dd_add d k x) = (if k \<in> set (keys d) then keys d else keys d @ [k])"
  by (auto simp: dd_add_def dd_getitem_def keys_def AList.update_keys map_of_eq_None_iff
      split: option.splits dest: weak_map_of_SomeI)

lemma lookup_dd_add:
  "lookup (dd_add d k x) k' = (if k' = k then set_add x (lookup d k) else lookup d k')"
  by (auto simp: dd_add_def dd_getitem_def lookup_def AList.update_conv' split: option.splits)

lemma distinct_set_add: "distinct xs \<Longrightarrow> distinct (set_add x xs)"
  by (simp add: set_add_def)

lemma wf_dd_add: "wf_dd d \<Longrightarrow> wf_dd (dd_add d k x)"
  by (auto simp: wf_dd_def keys_dd_add lookup_dd_add distinct_set_add)

lemma members_lookup: "members d k = set (lookup d k)"
  by (simp add: members_def lookup_def split: option.splits)

lemma set_set_add [simp]: "set (set_add x xs) = insert x (set xs)"
  by (auto simp: set_add_def)

lemma key_of_Some: "map_of d k = Some v \<Longrightarrow> k \<in> fst ` set d"
  by (metis domI dom_map_of_conv_image_fst)

lemma contract_info_process_row:
  assumes "\<not> skipped r"
  shows "map_of (contract_info (process_row r s)) c =
     (if c = Contract_Name r
      then Some ((case map_of (contract_info s) c of None \<Rightarrow> new_info r | Some i \<Rightarrow> i)
                  \<lparr>zip_states :=
                     AList.update (row_zip r) (row_state_id r)
                       (zip_states (case map_of (contract_info s) c of
                                      None \<Rightarrow> new_info r | Some i \<Rightarrow> i))\<rparr>)
      else map_of (contract_info s) c)"
  using assms
  by (auto simp: process_row_def Let_def keys_def AList.map_of_map_entry AList.update_conv'
        map_of_eq_None_iff split: option.splits dest: key_of_Some)

lemma keys_contract_info_process_row:
  assumes "\<not> skipped r"
  shows "keys (contract_info (process_row r s)) =
     (if Contract_Name r \<in> set (keys (contract_info s)) then keys (contract_info s)
      else keys (contract_info s) @ [Contract_Name r])"
proof -
  have k: "map fst (AList.map_entry k f xs) = map fst xs" for k and f :: "'b \<Rightarrow> 'b" and xs :: "('a \<times> 'b) list"
    by (induction xs) auto
  show ?thesis using assms
    by (auto simp: process_row_def Let_def keys_def k AList.update_keys)
qed

lemma info_ok_process_row:
  assumes "info_ok s"
  shows "info_ok (process_row r s)"
proof (cases "skipped r")
  case True
  with assms show ?thesis by (simp add: process_row_skipped)
next
  case False
  note m = process_row_maps [OF False, of s]
  have d: "distinct (keys (contract_info (process_row r s)))"
    using assms by (auto simp: keys_contract_info_process_row [OF False] info_ok_def)
  have "\<exists>ci. map_of (contract_info (process_row r s)) c = Some ci \<and>
             set (lookup (contract_zip_map (process_row r s)) c) \<subseteq> set (keys (zip_states ci))"
    if c: "c \<in> set (keys (contract_zip_map (process_row r s)))" for c
  proof (cases "c = Contract_Name r")
    case True
    show ?thesis
    proof (cases "c \<in> set (keys (contract_zip_map s))")
      case True
      with assms obtain ci where ci: "map_of (contract_info s) c = Some ci"
        "set (lookup (contract_zip_map s) c) \<subseteq> set (keys (zip_states ci))"
        by (auto simp: info_ok_def)
      with \<open>c = Contract_Name r\<close> show ?thesis
        by (auto simp: contract_info_process_row [OF False] m lookup_dd_add keys_def
              AList.dom_update)
    next
      case nk: False
      then have "lookup (contract_zip_map s) c = []"
        by (auto simp: lookup_def keys_def split: option.splits dest: key_of_Some)
      with \<open>c = Contract_Name r\<close> show ?thesis
        by (auto simp: contract_info_process_row [OF False] m lookup_dd_add keys_def
              AList.dom_update)
    qed
  next
    case ne: False
    with c have "c \<in> set (keys (contract_zip_map s))"
      by (auto simp: m keys_dd_add split: if_splits)
    with assms obtain ci where ci: "map_of (contract_info s) c = Some ci"
        "set (lookup (contract_zip_map s) c) \<subseteq> set (keys (zip_states ci))"
      by (auto simp: info_ok_def)
    with ne show ?thesis
      by (auto simp: contract_info_process_row [OF False] m lookup_dd_add)
  qed
  with d show ?thesis by (simp add: info_ok_def)
qed

lemma index_ok_process_row: "index_ok s \<Longrightarrow> index_ok (process_row r s)"
proof (cases "skipped r")
  case True
  then show "index_ok s \<Longrightarrow> ?thesis" by (simp add: process_row_skipped)
next
  case False
  assume "index_ok s"
  then show ?thesis
    using process_row_maps [OF False, of s] info_ok_process_row [of s r]
      bidirectional_process_row [of s r]
    by (simp add: index_ok_def wf_dd_add)
qed

lemma index_ok_process_chunk: "index_ok s \<Longrightarrow> index_ok (process_chunk chunk s)"
  unfolding process_chunk_def
  by (induction chunk arbitrary: s) (auto simp: index_ok_process_row)

subsection \<open>Metadata and state ids\<close>

text \<open>The definitions that evaluate \<^verbatim>\<open>process_chunk\<close> on given rows.\<close>

lemmas eval_defs = process_chunk_def process_row_def skipped_def row_zip_def row_state_id_def
  sample_row_def scenario_rows_def init_def strip_def str_def isspace_def get_or_empty_def
  dd_add_def dd_getitem_def set_add_def keys_def new_info_def Let_def


lemma stored_metadata_process_row:
  "stored_metadata (process_row r s) c =
     (if \<not> skipped r \<and> c = Contract_Name r \<and> stored_metadata s c = None
      then Some (metadata (new_info r)) else stored_metadata s c)"
proof (cases "skipped r")
  case True
  then show ?thesis by (simp add: process_row_skipped)
next
  case False
  show ?thesis
    using False
    by (auto simp: stored_metadata_def contract_info_process_row [OF False] metadata_def
          split: option.splits)
qed

lemma stored_metadata_kept_row:
  "stored_metadata s c = Some m \<Longrightarrow> stored_metadata (process_row r s) c = Some m"
  by (simp add: stored_metadata_process_row)

lemma stored_metadata_kept_chunk:
  "stored_metadata s c = Some m \<Longrightarrow> stored_metadata (process_chunk chunk s) c = Some m"
  unfolding process_chunk_def
  by (induction chunk arbitrary: s) (auto simp: stored_metadata_kept_row)

lemma stored_state_id_process_row:
  assumes "\<not> skipped r"
  shows "stored_state_id (process_row r s) c z =
     (if c = Contract_Name r \<and> z = row_zip r then Some (row_state_id r)
      else stored_state_id s c z)"
  by (auto simp: stored_state_id_def contract_info_process_row [OF assms] AList.update_conv'
        new_info_def split: option.splits)

lemma process_row_twice_info:
  "map_of (contract_info (process_row r (process_row r s))) =
   map_of (contract_info (process_row r s))"
proof (cases "skipped r")
  case True
  then show ?thesis by (simp add: process_row_skipped)
next
  case False
  show ?thesis
    by (rule ext) (simp add: contract_info_process_row [OF False])
qed

subsection \<open>Reading a valid index does not change it\<close>

lemma dd_getitem_present:
  "k \<in> set (keys d) \<Longrightarrow> dd_getitem d k = (lookup d k, d)"
  by (auto simp: dd_getitem_def lookup_def keys_def map_of_eq_None_iff split: option.splits)

lemma lookup_absent: "k \<notin> set (keys d) \<Longrightarrow> lookup d k = []"
  by (auto simp: lookup_def keys_def split: option.splits dest: key_of_Some)

lemma index_ok_zip_key:
  assumes "index_ok s" "z \<in> set (lookup (contract_zip_map s) c)"
  shows "z \<in> set (keys (zip_contract_map s))"
proof -
  from assms have "c \<in> set (lookup (zip_contract_map s) z)"
    by (simp add: index_ok_def bidirectional_def members_lookup)
  then show ?thesis using lookup_absent [of z "zip_contract_map s"] by fastforce
qed

lemma index_ok_contract_key:
  assumes "index_ok s" "c \<in> set (lookup (zip_contract_map s) z)"
  shows "c \<in> set (keys (contract_zip_map s))"
proof -
  from assms have "z \<in> set (lookup (contract_zip_map s) c)"
    by (simp add: index_ok_def bidirectional_def members_lookup)
  then show ?thesis using lookup_absent [of c "contract_zip_map s"] by fastforce
qed

lemma index_ok_info:
  assumes "index_ok s" "c \<in> set (keys (contract_zip_map s))"
  shows "\<exists>ci. map_of (contract_info s) c = Some ci \<and>
              set (lookup (contract_zip_map s) c) \<subseteq> set (keys (zip_states ci))"
  using assms by (simp add: index_ok_def info_ok_def)

lemma match_contracts_ok:
  assumes "\<forall>c \<in> set cs. c \<in> set (keys (contract_zip_map s)) \<and> map_of (contract_info s) c \<noteq> None"
  shows "match_contracts z cs acc s = (Inr (acc @ map (match_entry s z) cs), s)"
  using assms
proof (induction cs arbitrary: acc)
  case Nil
  then show ?case by simp
next
  case (Cons c cs)
  then obtain ci where ci: "map_of (contract_info s) c = Some ci" by auto
  have k: "c \<in> set (keys (contract_zip_map s))" using Cons.prems by simp
  have "s\<lparr>contract_zip_map := contract_zip_map s\<rparr> = s" by simp
  then show ?case
    using Cons ci
    by (simp add: getitem_def dd_getitem_present [OF k] match_entry_def Let_def)
qed

lemma match_zips_ok:
  assumes "index_ok s"
  shows "match_zips zs acc s = (Inr (acc @ concat (map (zip_entries s) zs)), s)"
proof (induction zs arbitrary: acc)
  case Nil
  then show ?case by simp
next
  case (Cons z zs)
  show ?case
  proof (cases "z \<in> set (keys (zip_contract_map s))")
    case True
    have cs: "\<forall>c \<in> set (lookup (zip_contract_map s) z).
               c \<in> set (keys (contract_zip_map s)) \<and> map_of (contract_info s) c \<noteq> None"
      using index_ok_contract_key [OF assms] index_ok_info [OF assms] by blast
    have "s\<lparr>zip_contract_map := zip_contract_map s\<rparr> = s" by simp
    then show ?thesis
      using True Cons
      by (simp add: dd_getitem_present [OF True] match_contracts_ok [OF cs] zip_entries_def)
  next
    case False
    then show ?thesis using Cons by (simp add: zip_entries_def)
  qed
qed

lemma same_index_log [simp]: "same_index s (log_message m s')= same_index s s'"
  by (simp add: same_index_def log_message_def)

lemma same_index_refl [simp]: "same_index s s"
  by (simp add: same_index_def)

lemma same_index_out [simp]: "same_index s (s'\<lparr>output_files := out\<rparr>) = same_index s s'"
  by (simp add: same_index_def)

lemma same_index_log_top10 [simp]: "same_index s (log_top10 t s') = same_index s s'"
proof -
  have "same_index s (fold (\<lambda>e. log_message (top_line e)) xs s'') = same_index s s''" for xs s''
    by (induction xs arbitrary: s'') auto
  then show ?thesis by (simp add: log_top10_def)
qed

lemma same_index_export_matches [simp]:
  "same_index s (snd (export_matches indexer new_zips match_df s')) = same_index s s'"
  by (simp add: export_matches_def Let_def split: sum.splits)

lemma index_ok_log [simp]: "index_ok (log_message m s) = index_ok s"
  by (simp add: index_ok_def info_ok_def log_message_def bidirectional_def)

lemma log_message_maps [simp]:
  "contract_zip_map (log_message m s) = contract_zip_map s"
  "zip_contract_map (log_message m s) = zip_contract_map s"
  "contract_info (log_message m s) = contract_info s"
  "output_files (log_message m s) = output_files s"
  by (simp_all add: log_message_def)

lemma analyze_new_zips_same_index:
  assumes "index_ok s"
  shows "same_index s (analyze_new_zips indexer new_zip_file s)"
proof -
  have ok: "index_ok (log_message c (log_message b (log_message a s)))" for a b c
    using assms by simp
  show ?thesis
    unfolding analyze_new_zips_def analyze_new_zips_run_def Let_def
    by (auto split: option.splits sum.splits prod.splits simp: match_zips_ok [OF ok]
          same_index_export_matches [THEN iffD2]
          dest!: arg_cong [where f = snd])
qed

subsection \<open>The loops of the main analysis on a valid index\<close>

lemma state_zcm_same [simp]: "s\<lparr>zip_contract_map := zip_contract_map s\<rparr> = s"
  by simp

lemma count_overlaps_ok:
  assumes "set zips \<subseteq> set (keys (zip_contract_map s))"
  shows "count_overlaps c zips (n, ov) s =
     ((n + overlap_count s c zips,
       fold (\<lambda>z. fold set_add (other_contracts s c z)) zips ov), s)"
  using assms
proof (induction zips arbitrary: n ov)
  case Nil
  then show ?case by (simp add: overlap_count_def)
next
  case (Cons z zips)
  then have k: "z \<in> set (keys (zip_contract_map s))" by simp
  show ?case
    using Cons
    by (simp add: dd_getitem_present [OF k] overlap_count_def other_contracts_def Let_def)
qed

lemma summary_loop_ok:
  assumes "\<forall>(c, zs) \<in> set items.
             map_of (contract_info s) c \<noteq> None \<and> set zs \<subseteq> set (keys (zip_contract_map s))"
  shows "summary_loop items acc s = (Inr (acc @ map (summary_entry s) items), s)"
  using assms
proof (induction items arbitrary: acc)
  case Nil
  then show ?case by simp
next
  case (Cons item items)
  obtain c zs where item: "item = (c, zs)" by (cases item)
  with Cons.prems obtain ci where ci: "map_of (contract_info s) c = Some ci" by auto
  from Cons.prems item have k: "set zs \<subseteq> set (keys (zip_contract_map s))" by simp
  show ?case
    using Cons ci
    by (simp add: item getitem_def count_overlaps_ok [OF k] summary_entry_def
          overlapping_contracts_def)
qed

lemma detail_zips_ok:
  assumes "set zips \<subseteq> set (keys (zip_contract_map s))"
    and "map_of (contract_info s) c = Some ci"
  shows "detail_zips c ci zips acc s = (acc @ map (detail_entry s c) zips, s)"
  using assms(1)
proof (induction zips arbitrary: acc)
  case Nil
  then show ?case by simp
next
  case (Cons z zips)
  then have k: "z \<in> set (keys (zip_contract_map s))" by simp
  show ?case
    using Cons assms(2)
    by (simp add: dd_getitem_present [OF k] detail_entry_def other_contracts_def Let_def)
qed

lemma detail_loop_ok:
  assumes "\<forall>(c, zs) \<in> set items.
             map_of (contract_info s) c \<noteq> None \<and> set zs \<subseteq> set (keys (zip_contract_map s))"
  shows "detail_loop items acc s = (Inr (acc @ concat (map (detail_entries s) items)), s)"
  using assms
proof (induction items arbitrary: acc)
  case Nil
  then show ?case by simp
next
  case (Cons item items)
  obtain c zs where item: "item = (c, zs)" by (cases item)
  with Cons.prems obtain ci where ci: "map_of (contract_info s) c = Some ci" by auto
  from Cons.prems item have k: "set (sort zs) \<subseteq> set (keys (zip_contract_map s))" by simp
  show ?case
    using Cons ci
    by (simp add: item getitem_def detail_zips_ok [OF k ci] detail_entries_def)
qed

lemma lookup_item:
  assumes "distinct (keys d)" "(k, v) \<in> set d"
  shows "lookup d k = v"
  using assms by (simp add: lookup_def keys_def)

lemma index_ok_items:
  assumes "index_ok s"
  shows "\<forall>(c, zs) \<in> set (contract_zip_map s).
           map_of (contract_info s) c \<noteq> None \<and> set zs \<subseteq> set (keys (zip_contract_map s))"
proof (clarify, intro conjI)
  fix c zs assume m: "(c, zs) \<in> set (contract_zip_map s)"
  then have k: "c \<in> set (keys (contract_zip_map s))" by (force simp: keys_def)
  from index_ok_info [OF assms k] show "map_of (contract_info s) c \<noteq> None" by auto
  from assms m have "lookup (contract_zip_map s) c = zs"
    by (auto simp: index_ok_def wf_dd_def intro: lookup_item)
  with index_ok_zip_key [OF assms, of _ c]
  show "set zs \<subseteq> set (keys (zip_contract_map s))" by auto
qed

lemma same_index_export_batches [simp]:
  "same_index s (snd (export_batches detailed cwm is bn s')) = same_index s s'"
  by (induction "is" arbitrary: bn s') (auto simp: Let_def)

lemma same_index_maps:
  "same_index s s' \<Longrightarrow>
   contract_zip_map s' = contract_zip_map s \<and> zip_contract_map s' = zip_contract_map s \<and>
   contract_info s' = contract_info s"
  by (simp add: same_index_def)

lemma index_ok_same_index: "same_index s s' \<Longrightarrow> index_ok s' = index_ok s"
  by (simp add: same_index_def index_ok_def info_ok_def bidirectional_def)

lemma same_index_trans: "same_index s s' \<Longrightarrow> same_index s' s'' \<Longrightarrow> same_index s s''"
  by (simp add: same_index_def)

lemma summary_part_same_index:
  assumes "index_ok s"
  shows "same_index s (snd (summary_part indexer s))"
proof -
  have ok: "index_ok (log_message a s)" for a using assms by simp
  have it: "\<forall>(c, zs) \<in> set (contract_zip_map s).
             map_of (contract_info (log_message a s)) c \<noteq> None \<and>
             set zs \<subseteq> set (keys (zip_contract_map (log_message a s)))" for a
    using index_ok_items [OF ok [of a]] by simp
  show ?thesis
    unfolding summary_part_def Let_def
    by (simp add: summary_loop_ok [OF it] split: sum.splits)
qed

lemma detailed_part_same_index:
  assumes "index_ok s"
  shows "same_index s (snd (detailed_part indexer ac s))"
proof -
  have ok: "index_ok (log_message a s)" for a using assms by simp
  have it: "\<forall>(c, zs) \<in> set (contract_zip_map s).
             map_of (contract_info (log_message a s)) c \<noteq> None \<and>
             set zs \<subseteq> set (keys (zip_contract_map (log_message a s)))" for a
    using index_ok_items [OF ok [of a]] by simp
  show ?thesis
    unfolding detailed_part_def Let_def
    by (simp add: detail_loop_ok [OF it])
qed

lemma batch_part_same_index: "same_index s (snd (batch_part summary_df detailed_df s))"
proof -
  obtain bn s2 where e: "export_batches detailed_df (contracts_with_matches summary_df)
      (range_step 0 (length (contracts_with_matches summary_df)) batch_size) None
      (log_message ''Exporting individual contract sheets...'' s) = (bn, s2)"
    by (cases "export_batches detailed_df (contracts_with_matches summary_df)
      (range_step 0 (length (contracts_with_matches summary_df)) batch_size) None
      (log_message ''Exporting individual contract sheets...'' s)")
  from same_index_export_batches [of s detailed_df "contracts_with_matches summary_df"
     "range_step 0 (length (contracts_with_matches summary_df)) batch_size" None
     "log_message ''Exporting individual contract sheets...'' s"] e
  have "same_index s s2" by simp
  with e show ?thesis
    by (cases bn) (simp_all add: batch_part_def Let_def)
qed

lemma analyze_main_data_same_index:
  assumes "index_ok s"
  shows "same_index s (analyze_main_data indexer s)"
proof -
  let ?s0 = "log_message ''Starting main analysis...'' s"
  have ok0: "index_ok ?s0" using assms by simp
  have i0: "same_index s ?s0" by simp
  obtain r1 s1 where p1: "summary_part indexer ?s0 = (r1, s1)" by (cases "summary_part indexer ?s0")
  with summary_part_same_index [OF ok0, of indexer] have i1: "same_index ?s0 s1" by simp
  then have s1: "same_index s s1" using i0 same_index_trans by blast
  show ?thesis
  proof (cases r1)
    case (Inl e)
    with p1 s1 show ?thesis by (simp add: analyze_main_data_def analyze_main_data_run_def)
  next
    case (Inr p)
    obtain summary_df ac where p: "p = (summary_df, ac)" by (cases p)
    have ok1: "index_ok s1" using index_ok_same_index [OF s1] assms by simp
    obtain r2 s2 where p2: "detailed_part indexer ac s1 = (r2, s2)"
      by (cases "detailed_part indexer ac s1")
    with detailed_part_same_index [OF ok1, of indexer ac] have "same_index s1 s2" by simp
    with s1 have s2: "same_index s s2" using same_index_trans by blast
    show ?thesis
    proof (cases r2)
      case (Inl e)
      with p1 p2 Inr p s2 show ?thesis
        by (simp add: analyze_main_data_def analyze_main_data_run_def)
    next
      case r2: (Inr detailed_df)
      obtain r3 s3 where p3: "batch_part summary_df detailed_df s2 = (r3, s3)"
        by (cases "batch_part summary_df detailed_df s2")
      with batch_part_same_index [of s2 summary_df detailed_df] have "same_index s2 s3" by simp
      with s2 have "same_index s s3" using same_index_trans by blast
      with p1 p2 p3 Inr p r2 show ?thesis
        by (cases r3) (simp_all add: analyze_main_data_def analyze_main_data_run_def)
    qed
  qed
qed

lemma index_ok_load_chunks:
  "index_ok s \<Longrightarrow> index_ok (snd (load_chunks fa chunks cnt s))"
proof (induction fa chunks cnt s rule: load_chunks.induct)
  case (1 fa counters s)
  then show ?case by simp
next
  case (2 fa parsed rest total_rows active_rows chunk_count s)
  show ?case
    using "2.prems" "2.IH"
    apply (simp only: load_chunks.simps Let_def)
    apply (auto split: sum.splits if_splits simp: index_ok_process_chunk)
    done
qed

lemma index_ok_cleared:
  "index_ok (s\<lparr>contract_zip_map := [], zip_contract_map := [],
               contract_info := [], output_files := out\<rparr>)"
  by (simp add: index_ok_def bidirectional_def members_def wf_dd_def keys_def lookup_def
        info_ok_def)

lemma index_ok_loaded [simp]: "index_ok (s\<lparr>main_file_loaded := b\<rparr>) = index_ok s"
  by (simp add: index_ok_def info_ok_def bidirectional_def)

lemma index_ok_load_main_file:
  "index_ok (load_main_file main_file chunk_size filter_active s)"
proof -
  let ?s1 = "(log_message ''Starting to load main contracts file...'' s)
               \<lparr>contract_zip_map := [], zip_contract_map := [],
                contract_info := [], output_files := []\<rparr>"
  have clear: "index_ok ?s1" by (rule index_ok_cleared)
  have loop: "index_ok (snd (load_chunks filter_active chunks (0, 0, 0) ?s1))" for chunks
    using clear by (rule index_ok_load_chunks)
  show ?thesis
  proof (cases "read_csv_chunks main_file chunk_size")
    case (Inl e)
    then show ?thesis
      using clear by (simp add: load_main_file_def load_main_file_run_def Let_def)
  next
    case (Inr main_df)
    obtain res s2 where run: "load_chunks filter_active main_df (0, 0, 0) ?s1 = (res, s2)"
      by (cases "load_chunks filter_active main_df (0, 0, 0) ?s1")
    with loop [of main_df] have "index_ok s2" by simp
    with Inr run show ?thesis
      by (cases res) (auto simp: load_main_file_def load_main_file_run_def Let_def)
  qed
qed

lemma index_ok_init: "index_ok init"
  by (simp add: index_ok_def bidirectional_def members_def wf_dd_def keys_def lookup_def
        info_ok_def init_def)

lemma reachable_index_ok: "reachable s \<Longrightarrow> index_ok s"
proof (induction rule: reachable.induct)
  case start
  show ?case by (rule index_ok_init)
next
  case (chunk s rows)
  then show ?case by (simp add: index_ok_process_chunk)
next
  case (load s main_file chunk_size filter_active)
  show ?case by (rule index_ok_load_main_file)
next
  case (main s indexer)
  then show ?case
    using index_ok_same_index [OF analyze_main_data_same_index] by blast
next
  case (zips s indexer new_zip_file)
  then show ?case
    using index_ok_same_index [OF analyze_new_zips_same_index] by blast
qed

subsection \<open>Reachable states\<close>

lemma reachable_scenario: "reachable scenario_state"
  unfolding scenario_state_def by (intro reachable.chunk reachable.start)

lemma scenario_state_eq:
  "scenario_state =
     init\<lparr>contract_zip_map := [(''C1'', [''ZIP1'']), (''C2'', [''ZIP1'']), (''C3'', [''ZIP2''])],
          zip_contract_map := [(''ZIP1'', [''C1'', ''C2'']), (''ZIP2'', [''C3''])],
          contract_info :=
            [(''C1'', \<lparr>buyer_name = Str ''Buyer'', buyer_id = Str ''7'',
                       vertical_name = Str ''Solar'', contract_status = Str ''Active'',
                       zip_states = [(''ZIP1'', ''CA'')]\<rparr>),
             (''C2'', \<lparr>buyer_name = Str ''Buyer'', buyer_id = Str ''7'',
                       vertical_name = Str ''Solar'', contract_status = Str ''Active'',
                       zip_states = [(''ZIP1'', ''CA'')]\<rparr>),
             (''C3'', \<lparr>buyer_name = Str ''Buyer'', buyer_id = Str ''7'',
                       vertical_name = Str ''Solar'', contract_status = Str ''Active'',
                       zip_states = [(''ZIP2'', ''NV'')]\<rparr>)]\<rparr>"
  by (simp add: scenario_state_def eval_defs)

lemma fold_chunks_reachable: "reachable s \<Longrightarrow> reachable (fold process_chunk chunks s)"
  by (induction chunks arbitrary: s) (auto intro: reachable.chunk)

lemma loops_never_fail:
  assumes "index_ok s"
  shows "summary_loop (contract_zip_map s) [] s =
           (Inr (map (summary_entry s) (contract_zip_map s)), s)"
    and "detail_loop (contract_zip_map s) [] s =
           (Inr (concat (map (detail_entries s) (contract_zip_map s))), s)"
    and "match_zips new_zips [] s = (Inr (concat (map (zip_entries s) new_zips)), s)"
  using summary_loop_ok [OF index_ok_items [OF assms], where acc = "[]"]
    detail_loop_ok [OF index_ok_items [OF assms], where acc = "[]"]
    match_zips_ok [OF assms, where zs = new_zips and acc = "[]"]
  by simp_all

lemma index_ok_state_ids:
  assumes "index_ok s" "c \<in> set (keys (contract_zip_map s))"
  shows "\<exists>ci. getitem (contract_info s) c = Inr ci \<and>
              (\<forall>z \<in> set (lookup (contract_zip_map s) c). map_of (zip_states ci) z \<noteq> None)"
proof -
  from index_ok_info [OF assms] obtain ci where ci: "map_of (contract_info s) c = Some ci"
    "set (lookup (contract_zip_map s) c) \<subseteq> set (keys (zip_states ci))" by blast
  have "map_of (zip_states ci) z \<noteq> None" if "z \<in> set (lookup (contract_zip_map s) c)" for z
    using that ci(2) by (auto simp: keys_def map_of_eq_None_iff)
  with ci(1) show ?thesis by (simp add: getitem_def)
qed

subsection \<open>The match rows of a query\<close>

lemma zip_entries_same_index: "same_index s s' \<Longrightarrow> zip_entries s' = zip_entries s"
  by (rule ext) (simp add: zip_entries_def same_index_def match_entry_def)

lemma unique_distinct [simp]: "distinct (unique xs)" "set (unique xs) = set xs"
  by (simp_all add: unique_def)

lemma match_rows_eq:
  assumes "index_ok s" "find_zip_col (map strip (columns f)) = Some zip_col"
  shows "match_rows indexer f s =
     concat (map (zip_entries s) (new_zip_codes (f\<lparr>columns := map strip (columns f)\<rparr>) zip_col))"
proof -
  have ok: "index_ok (log_message c (log_message b (log_message a s)))" for a b c
    using assms by simp
  have z: "zip_entries (log_message c (log_message b (log_message a s))) = zip_entries s" for a b c
    by (rule zip_entries_same_index) simp
  show ?thesis
    using assms(2)
    unfolding match_rows_def analyze_new_zips_run_def Let_def
    by (auto simp: match_zips_ok [OF ok] z split: prod.splits option.splits)
qed

lemma count_in_map_entries:
  assumes "distinct cs"
  shows "length (filter (\<lambda>r. new_zip_code r = z' \<and> matching_contract r = c)
                  (map (match_entry s z) cs)) =
         (if z' = z \<and> c \<in> set cs then 1 else 0)"
proof -
  have "length (filter (\<lambda>r. new_zip_code r = z' \<and> matching_contract r = c)
                  (map (match_entry s z) cs)) =
        length (filter (\<lambda>c'. z = z' \<and> c' = c) cs)"
    by (simp add: filter_map o_def match_entry_def Let_def)
  also have "\<dots> = (if z' = z \<and> c \<in> set cs then 1 else 0)"
    using assms by (induction cs) auto
  finally show ?thesis .
qed

lemma count_in_zip_entries:
  assumes "wf_dd (zip_contract_map s)"
  shows "length (filter (\<lambda>r. new_zip_code r = z' \<and> matching_contract r = c) (zip_entries s z)) =
         (if z' = z \<and> c \<in> members (zip_contract_map s) z then 1 else 0)"
proof (cases "z \<in> set (keys (zip_contract_map s))")
  case True
  have d: "distinct (lookup (zip_contract_map s) z)" using assms by (simp add: wf_dd_def)
  from True have e: "zip_entries s z = map (match_entry s z) (lookup (zip_contract_map s) z)"
    by (simp add: zip_entries_def)
  show ?thesis
    unfolding e count_in_map_entries [OF d] by (simp add: members_lookup)
next
  case False
  then have e: "zip_entries s z = []" by (simp add: zip_entries_def)
  show ?thesis
    by (simp add: e members_lookup lookup_absent [OF False])
qed

lemma count_in_concat:
  assumes "wf_dd (zip_contract_map s)" "distinct zs"
  shows "length (filter (\<lambda>r. new_zip_code r = z \<and> matching_contract r = c)
                  (concat (map (zip_entries s) zs))) =
         (if z \<in> set zs \<and> c \<in> members (zip_contract_map s) z then 1 else 0)"
proof -
  define P where "P = (\<lambda>r :: match_row. new_zip_code r = z \<and> matching_contract r = c)"
  have one: "length (filter P (zip_entries s a)) =
               (if z = a \<and> c \<in> members (zip_contract_map s) a then 1 else 0)" for a
    unfolding P_def by (rule count_in_zip_entries [OF assms(1)])
  have "length (filter P (concat (map (zip_entries s) zs))) =
          (if z \<in> set zs \<and> c \<in> members (zip_contract_map s) z then 1 else 0)"
    using assms(2)
  proof (induction zs)
    case Nil
    then show ?case by simp
  next
    case (Cons a zs)
    have "length (filter P (concat (map (zip_entries s) (a # zs)))) =
            length (filter P (zip_entries s a)) +
            length (filter P (concat (map (zip_entries s) zs)))"
      by simp
    with Cons one [of a] show ?case by auto
  qed
  then show ?thesis by (simp add: P_def)
qed

lemma zip_entry_fields:
  assumes "index_ok s" "r \<in> set (zip_entries s z)"
  shows "new_zip_code r = z \<and> z \<in> set (keys (zip_contract_map s)) \<and>
         matching_contract r \<in> members (zip_contract_map s) z \<and>
         stored_state_id s (matching_contract r) z = Some (mt_state_id r) \<and>
         contract_total_zips r = card (members (contract_zip_map s) (matching_contract r))"
proof -
  from assms(2) obtain c where k: "z \<in> set (keys (zip_contract_map s))"
    and c: "c \<in> set (lookup (zip_contract_map s) z)" and r: "r = match_entry s z c"
    by (auto simp: zip_entries_def split: if_splits)
  have ck: "c \<in> set (keys (contract_zip_map s))" by (rule index_ok_contract_key [OF assms(1) c])
  from assms(1) c have zc: "z \<in> set (lookup (contract_zip_map s) c)"
    by (simp add: index_ok_def bidirectional_def members_lookup)
  from index_ok_state_ids [OF assms(1) ck] zc obtain ci v where
    ci: "map_of (contract_info s) c = Some ci" "map_of (zip_states ci) z = Some v"
    by (auto simp: getitem_def split: option.splits)
  have "distinct (lookup (contract_zip_map s) c)" using assms(1) by (simp add: index_ok_def wf_dd_def)
  then have "length (lookup (contract_zip_map s) c) = card (members (contract_zip_map s) c)"
    by (simp add: members_lookup distinct_card)
  with k c ci show ?thesis
    by (simp add: r match_entry_def Let_def stored_state_id_def members_lookup)
qed

lemma find_zip_col_query: "find_zip_col (map strip (columns query_file)) = Some ''Zip Code''"
  by code_simp

lemma match_rows_query:
  "match_rows stable_indexer query_file scenario_state =
     [\<lparr>new_zip_code = ''ZIP1'', mt_state_id = ''CA'', matching_contract = ''C1'',
       mt_buyer_name = Str ''Buyer'', mt_buyer_id = Str ''7'', mt_vertical_name = Str ''Solar'',
       mt_contract_status = Str ''Active'', contract_total_zips = 1\<rparr>,
      \<lparr>new_zip_code = ''ZIP1'', mt_state_id = ''CA'', matching_contract = ''C2'',
       mt_buyer_name = Str ''Buyer'', mt_buyer_id = Str ''7'', mt_vertical_name = Str ''Solar'',
       mt_contract_status = Str ''Active'', contract_total_zips = 1\<rparr>]"
  by code_simp

lemma logs_log_message [simp]: "logs (log_message m s) = logs s @ [m]"
  by (simp add: log_message_def)

lemma analyze_new_zips_run_eq:
  assumes "index_ok s" "find_zip_col (map strip (columns f)) = Some zip_col"
  shows "analyze_new_zips_run indexer f s =
     (let s3 = log_message ''Matching new ZIP codes against active contracts...''
                 (log_message (''Found '' @ str_nat (length (data f)) @ '' new ZIP codes to analyze'')
                    (log_message ''Loading new ZIP codes file...'' s));
          new_zips = new_zip_codes (f\<lparr>columns := map strip (columns f)\<rparr>) zip_col;
          match_results = concat (map (zip_entries s) new_zips)
      in if match_results \<noteq> [] then
           (case export_matches indexer new_zips match_results s3 of
              (Some e, s5) \<Rightarrow>
                ((Some e, match_results),
                 log_message (''Error analyzing new ZIP codes: '' @ str_error e) s5)
            | (None, s5) \<Rightarrow> ((None, match_results), s5))
         else ((None, []), log_message no_matches_message s3))"
proof -
  have ok: "index_ok (log_message c (log_message b (log_message a s)))" for a b c
    using assms by simp
  have z: "zip_entries (log_message c (log_message b (log_message a s))) = zip_entries s" for a b c
    by (rule zip_entries_same_index) simp
  show ?thesis
    unfolding analyze_new_zips_run_def Let_def
    by (simp add: assms(2) match_zips_ok [OF ok] z)
qed

lemma no_match_rows_reported:
  assumes "index_ok s" "find_zip_col (map strip (columns f)) = Some zip_col"
    and "match_rows indexer f s = []"
  shows "fst (fst (analyze_new_zips_run indexer f s)) = None \<and>
         output_files (analyze_new_zips indexer f s) = output_files s \<and>
         last (logs (analyze_new_zips indexer f s)) = no_matches_message"
proof -
  from assms(3) have "concat (map (zip_entries s)
      (new_zip_codes (f\<lparr>columns := map strip (columns f)\<rparr>) zip_col)) = []"
    by (simp only: match_rows_eq [OF assms(1,2)])
  then show ?thesis
    by (simp add: analyze_new_zips_def analyze_new_zips_run_eq [OF assms(1,2)] Let_def)
qed

lemma export_of_text_status:
  assumes "index_ok s" "find_zip_col (map strip (columns f)) = Some zip_col"
    and "match_rows indexer f s \<noteq> []"
    and "is_text_column (map mt_contract_status (match_rows indexer f s))"
  shows "fst (fst (analyze_new_zips_run indexer f s)) = None \<and>
         (\<exists>counts active.
            map_of (output_files (analyze_new_zips indexer f s)) ''new_zip_matches.xlsx'' =
              Some [(''ZIP Matches'', Match_Sheet (match_rows indexer f s)),
                    (''Contract Match Counts'', Count_Sheet counts),
                    (''Active Counts'', Count_Sheet active)])"
proof -
  let ?rows = "concat (map (zip_entries s)
      (new_zip_codes (f\<lparr>columns := map strip (columns f)\<rparr>) zip_col))"
  have r: "match_rows indexer f s = ?rows" by (rule match_rows_eq [OF assms(1,2)])
  from assms(3,4) have ne: "?rows \<noteq> []" and tx: "is_text_column (map mt_contract_status ?rows)"
    unfolding r by simp_all
  have a: "\<exists>active. active_match_counts ?rows = Inr active"
    using tx by (simp add: active_match_counts_def Let_def)
  then obtain active where active: "active_match_counts ?rows = Inr active" by blast
  show ?thesis
    unfolding r analyze_new_zips_def analyze_new_zips_run_eq [OF assms(1,2)] Let_def
    using ne
    by (simp add: export_matches_def active Let_def AList.update_conv')
qed

lemma export_needs_match_rows:
  assumes "index_ok s"
    and "output_files (analyze_new_zips indexer f s) \<noteq> output_files s"
  shows "match_rows indexer f s \<noteq> []"
proof (cases "find_zip_col (map strip (columns f))")
  case None
  then have "output_files (analyze_new_zips indexer f s) = output_files s"
    by (simp add: analyze_new_zips_def analyze_new_zips_run_def Let_def)
  with assms(2) show ?thesis by simp
next
  case (Some zip_col)
  show ?thesis
    using no_match_rows_reported [OF assms(1) Some, of indexer] assms(2) by blast
qed

subsection \<open>Overlap figures\<close>

lemma length_other_contracts:
  assumes "wf_dd (zip_contract_map s)"
  shows "length (other_contracts s c z) = card (members (zip_contract_map s) z - {c})"
proof -
  have d: "distinct (lookup (zip_contract_map s) z)" using assms by (simp add: wf_dd_def)
  have "set (other_contracts s c z) = members (zip_contract_map s) z - {c}"
    by (auto simp: other_contracts_def members_lookup)
  moreover have "distinct (other_contracts s c z)"
    using d by (simp add: other_contracts_def)
  ultimately show ?thesis by (metis distinct_card)
qed

lemma set_other_contracts:
  "set (other_contracts s c z) = members (zip_contract_map s) z - {c}"
  by (auto simp: other_contracts_def members_lookup)

lemma overlap_count_sum:
  assumes "wf_dd (zip_contract_map s)" "distinct zips"
  shows "overlap_count s c zips = (\<Sum>z \<in> set zips. card (members (zip_contract_map s) z - {c}))"
  using assms(2)
  by (simp add: overlap_count_def length_other_contracts [OF assms(1)] sum_list_distinct_conv_sum_set)

lemma fold_set_add: "set (fold set_add xs acc) = set acc \<union> set xs"
  by (induction xs arbitrary: acc) auto

lemma distinct_fold_set_add: "distinct acc \<Longrightarrow> distinct (fold set_add xs acc)"
  by (induction xs arbitrary: acc) (auto simp: distinct_set_add)

lemma set_fold_overlapping:
  "set (fold (\<lambda>z. fold set_add (other_contracts s c z)) zips acc) =
     set acc \<union> (\<Union>z \<in> set zips. members (zip_contract_map s) z - {c})"
  by (induction zips arbitrary: acc) (auto simp: fold_set_add set_other_contracts)

lemma distinct_fold_overlapping:
  "distinct acc \<Longrightarrow> distinct (fold (\<lambda>z. fold set_add (other_contracts s c z)) zips acc)"
  by (induction zips arbitrary: acc) (auto simp: distinct_fold_set_add)

lemma overlapping_contracts_set:
  "set (overlapping_contracts s c zips) = (\<Union>z \<in> set zips. members (zip_contract_map s) z - {c})"
  "distinct (overlapping_contracts s c zips)"
  by (simp_all add: overlapping_contracts_def set_fold_overlapping distinct_fold_overlapping)

lemma index_ok_item:
  assumes "index_ok s" "(c, zips) \<in> set (contract_zip_map s)"
  shows "distinct zips" "set zips \<subseteq> set (keys (zip_contract_map s))"
    "lookup (contract_zip_map s) c = zips" "map_of (contract_info s) c \<noteq> None"
proof -
  from assms show l: "lookup (contract_zip_map s) c = zips"
    by (auto simp: index_ok_def wf_dd_def intro: lookup_item)
  from assms(1) have "distinct (lookup (contract_zip_map s) c)"
    by (simp add: index_ok_def wf_dd_def)
  with l show "distinct zips" by simp
  from index_ok_items [OF assms(1)] assms(2)
  show "set zips \<subseteq> set (keys (zip_contract_map s))" "map_of (contract_info s) c \<noteq> None"
    by auto
qed

lemma scenario_summary:
  "summary_loop (contract_zip_map scenario_state) [] scenario_state =
     (Inr [\<lparr>sm_contract = ''C1'', sm_buyer_name = Str ''Buyer'', sm_buyer_id = Str ''7'',
            sm_vertical_name = Str ''Solar'', sm_contract_status = Str ''Active'',
            total_zip_codes = 1, total_zip_matches = 1, unique_overlapping = 1\<rparr>,
           \<lparr>sm_contract = ''C2'', sm_buyer_name = Str ''Buyer'', sm_buyer_id = Str ''7'',
            sm_vertical_name = Str ''Solar'', sm_contract_status = Str ''Active'',
            total_zip_codes = 1, total_zip_matches = 1, unique_overlapping = 1\<rparr>,
           \<lparr>sm_contract = ''C3'', sm_buyer_name = Str ''Buyer'', sm_buyer_id = Str ''7'',
            sm_vertical_name = Str ''Solar'', sm_contract_status = Str ''Active'',
            total_zip_codes = 1, total_zip_matches = 0, unique_overlapping = 0\<rparr>],
      scenario_state)"
  by (simp add: scenario_state_eq init_def getitem_def dd_getitem_def set_add_def)

subsection \<open>Claims\<close>

text \<open>
  C1. After \<^verbatim>\<open>load_main_file\<close>, whatever the file, the chunk size, the filter flag
  and the state before (and whether or not the load ran into an exception), for every
  contract \<open>c\<close> and ZIP \<open>z\<close>: \<open>c\<close> is in \<open>zip_contract_map[z]\<close> exactly when \<open>z\<close> is in
  \<open>contract_zip_map[c]\<close>. Every chunk that \<^verbatim>\<open>process_chunk\<close> processes keeps this
  consistency.
\<close>

theorem C1_bidirectional_consistency:
  "bidirectional (load_main_file main_file chunk_size filter_active s0) \<and>
   (bidirectional s \<longrightarrow> bidirectional (process_chunk chunk s))"
  using bidirectional_load_main_file bidirectional_process_chunk by blast

theorem C1_bidirectional_consistency_witness:
  "bidirectional init \<and> bidirectional (process_chunk scenario_rows init)"
  using C1_bidirectional_consistency [of "\<lparr>columns = [], data = []\<rparr>" 1 True init init scenario_rows]
    bidirectional_init
  by blast

text \<open>
  C2, as the code has it. Contract metadata (buyer name, buyer id, vertical name,
  contract status) is captured from the first ingested row that names the contract,
  and no later row alters it, whatever values it carries. The state id of a pair of
  contract and ZIP is written by every ingested row of that pair: after the row, the
  stored state id is the one of that row. The state ids of all other pairs stay as
  they are, and ingesting the same row a second time changes nothing in the
  metadata and state ids.
\<close>

theorem C2_metadata_first_state_id_last:
  "(stored_metadata s c = Some m \<longrightarrow> stored_metadata (process_chunk chunk s) c = Some m) \<and>
   (\<not> skipped r \<and> stored_metadata s (Contract_Name r) = None \<longrightarrow>
      stored_metadata (process_row r s) (Contract_Name r) = Some (metadata (new_info r))) \<and>
   (\<not> skipped r \<longrightarrow>
      stored_state_id (process_row r s) (Contract_Name r) (row_zip r) = Some (row_state_id r)) \<and>
   (\<not> skipped r \<and> (c', z') \<noteq> (Contract_Name r, row_zip r) \<longrightarrow>
      stored_state_id (process_row r s) c' z' = stored_state_id s c' z') \<and>
   map_of (contract_info (process_row r (process_row r s))) =
     map_of (contract_info (process_row r s))"
  using stored_metadata_kept_chunk [of s c m chunk] stored_metadata_process_row [of r s "Contract_Name r"]
    stored_state_id_process_row [of r s]
    process_row_twice_info [of r s]
  by auto

theorem C2_metadata_first_state_id_last_witness:
  "stored_metadata (process_chunk [sample_row ''C1'' ''ZIP1'' ''CA''] init) ''C1''
     = Some (Str ''Buyer'', Str ''7'', Str ''Solar'', Str ''Active'') \<and>
   stored_metadata
     (process_chunk [other_buyer_row] (process_chunk [sample_row ''C1'' ''ZIP1'' ''CA''] init)) ''C1''
     = Some (Str ''Buyer'', Str ''7'', Str ''Solar'', Str ''Active'') \<and>
   \<not> skipped (sample_row ''C2'' ''ZIP1'' ''NV'') \<and>
   stored_metadata (process_chunk [sample_row ''C1'' ''ZIP1'' ''CA''] init) ''C2'' = None \<and>
   stored_metadata
     (process_row (sample_row ''C2'' ''ZIP1'' ''NV'')
        (process_chunk [sample_row ''C1'' ''ZIP1'' ''CA''] init)) ''C2''
     = Some (Str ''Buyer'', Str ''7'', Str ''Solar'', Str ''Active'') \<and>
   stored_state_id
     (process_row (sample_row ''C2'' ''ZIP1'' ''NV'')
        (process_chunk [sample_row ''C1'' ''ZIP1'' ''CA''] init)) ''C2'' ''ZIP1'' = Some ''NV'' \<and>
   stored_state_id
     (process_row (sample_row ''C2'' ''ZIP1'' ''NV'')
        (process_chunk [sample_row ''C1'' ''ZIP1'' ''CA''] init)) ''C1'' ''ZIP1'' = Some ''CA''"
proof -
  let ?s = "process_chunk [sample_row ''C1'' ''ZIP1'' ''CA''] init"
  let ?r = "sample_row ''C2'' ''ZIP1'' ''NV''"
  let ?m = "(Str ''Buyer'', Str ''7'', Str ''Solar'', Str ''Active'')"
  have h1: "stored_metadata ?s ''C1'' = Some ?m"
    by (simp add: eval_defs stored_metadata_def metadata_def)
  have h2: "\<not> skipped ?r"
    by (simp add: eval_defs)
  have h3: "stored_metadata ?s ''C2'' = None"
    by (simp add: eval_defs stored_metadata_def)
  have h4: "stored_state_id ?s ''C1'' ''ZIP1'' = Some ''CA''"
    by (simp add: eval_defs stored_state_id_def)
  have r: "Contract_Name ?r = ''C2''" "row_zip ?r = ''ZIP1''" "row_state_id ?r = ''NV''"
    "metadata (new_info ?r) = ?m"
    by (simp_all add: eval_defs metadata_def)
  show ?thesis
    using C2_metadata_first_state_id_last
      [of ?s "''C1''" ?m "[other_buyer_row]" ?r "''C1''" "''ZIP1''"] h1 h2 h3 h4
    by (simp add: r)
qed

text \<open>
  C2 as stated fails: a later row for the pair (\<open>C1\<close>, \<open>ZIP1\<close>), seen before with
  state id \<open>CA\<close>, replaces the stored state id by its own \<open>NY\<close>.
\<close>

theorem C2_counterexample:
  "stored_state_id (process_chunk [sample_row ''C1'' ''ZIP1'' ''CA''] init) ''C1'' ''ZIP1''
     = Some ''CA'' \<and>
   stored_state_id
     (process_chunk [sample_row ''C1'' ''ZIP1'' ''CA'', sample_row ''C1'' ''ZIP1'' ''NY''] init)
     ''C1'' ''ZIP1'' = Some ''NY''"
  by (simp add: eval_defs stored_state_id_def)

text \<open>
  C9. A call of \<^verbatim>\<open>analyze_new_zips\<close> leaves the index as it is: from every state
  that a session can be in, and for every query file, \<open>contract_zip_map\<close>,
  \<open>zip_contract_map\<close> and \<open>contract_info\<close> are the same after the call as before.
  The lookups in the two \<^verbatim>\<open>defaultdict\<close>s are part of the call: in a state of a
  session they never meet a missing key, so they insert nothing.
\<close>

theorem C9_query_leaves_index_unchanged:
  "reachable s \<Longrightarrow>
   contract_zip_map (analyze_new_zips indexer new_zip_file s) = contract_zip_map s \<and>
   zip_contract_map (analyze_new_zips indexer new_zip_file s) = zip_contract_map s \<and>
   contract_info (analyze_new_zips indexer new_zip_file s) = contract_info s"
  using same_index_maps [OF analyze_new_zips_same_index [OF reachable_index_ok]] by blast

theorem C9_query_leaves_index_unchanged_witness:
  "reachable scenario_state \<and>
   contract_zip_map (analyze_new_zips stable_indexer query_file scenario_state) =
     [(''C1'', [''ZIP1'']), (''C2'', [''ZIP1'']), (''C3'', [''ZIP2''])] \<and>
   zip_contract_map (analyze_new_zips stable_indexer query_file scenario_state) =
     [(''ZIP1'', [''C1'', ''C2'']), (''ZIP2'', [''C3''])] \<and>
   map fst (contract_info (analyze_new_zips stable_indexer query_file scenario_state)) =
     [''C1'', ''C2'', ''C3'']"
  using C9_query_leaves_index_unchanged [OF reachable_scenario, of stable_indexer query_file]
    reachable_scenario
  by (simp add: scenario_state_eq)

text \<open>
  C10. After any sequence of \<^verbatim>\<open>process_chunk\<close> calls every key of
  \<open>contract_zip_map\<close> is a key of \<open>contract_info\<close>, the lookup
  \<open>contract_info[contract]\<close> of an indexed contract succeeds, and the \<open>zip_states\<close>
  found there have an entry for each ZIP of the contract. Hence the loops of
  \<^verbatim>\<open>analyze_main_data\<close> and of \<^verbatim>\<open>analyze_new_zips\<close> that look contracts up in
  \<open>contract_info\<close> run to their end without a \<^verbatim>\<open>KeyError\<close>, and leave the state as
  it was.
\<close>

theorem C10_indexed_contracts_have_info:
  "set (keys (contract_zip_map (fold process_chunk chunks init)))
     \<subseteq> set (keys (contract_info (fold process_chunk chunks init))) \<and>
   (\<forall>c \<in> set (keys (contract_zip_map (fold process_chunk chunks init))).
      \<exists>ci. getitem (contract_info (fold process_chunk chunks init)) c = Inr ci \<and>
           (\<forall>z \<in> set (lookup (contract_zip_map (fold process_chunk chunks init)) c).
              map_of (zip_states ci) z \<noteq> None)) \<and>
   (\<exists>summary_data. summary_loop (contract_zip_map (fold process_chunk chunks init)) []
        (fold process_chunk chunks init) = (Inr summary_data, fold process_chunk chunks init)) \<and>
   (\<exists>detailed_data. detail_loop (contract_zip_map (fold process_chunk chunks init)) []
        (fold process_chunk chunks init) = (Inr detailed_data, fold process_chunk chunks init)) \<and>
   (\<exists>match_results. match_zips new_zips []
        (fold process_chunk chunks init) = (Inr match_results, fold process_chunk chunks init))"
proof -
  let ?s = "fold process_chunk chunks init"
  have ok: "index_ok ?s"
    by (rule reachable_index_ok [OF fold_chunks_reachable [OF reachable.start]])
  have sub: "set (keys (contract_zip_map ?s)) \<subseteq> set (keys (contract_info ?s))"
  proof
    fix c assume "c \<in> set (keys (contract_zip_map ?s))"
    from index_ok_info [OF ok this] show "c \<in> set (keys (contract_info ?s))"
      by (auto simp: keys_def dest: key_of_Some)
  qed
  show ?thesis
    using sub index_ok_state_ids [OF ok] loops_never_fail(1,2) [OF ok]
      loops_never_fail(3) [OF ok, of new_zips]
    by blast
qed

theorem C10_indexed_contracts_have_info_witness:
  "''C1'' \<in> set (keys (contract_zip_map (fold process_chunk [scenario_rows] init))) \<and>
   ''ZIP1'' \<in> set (lookup (contract_zip_map (fold process_chunk [scenario_rows] init)) ''C1'') \<and>
   (\<exists>ci. getitem (contract_info (fold process_chunk [scenario_rows] init)) ''C1'' = Inr ci \<and>
         map_of (zip_states ci) ''ZIP1'' \<noteq> None)"
proof -
  have s: "fold process_chunk [scenario_rows] init = scenario_state"
    by (simp add: scenario_state_def)
  have h1: "''C1'' \<in> set (keys (contract_zip_map scenario_state))"
    by (simp add: scenario_state_eq keys_def)
  have h2: "''ZIP1'' \<in> set (lookup (contract_zip_map scenario_state) ''C1'')"
    by (simp add: scenario_state_eq lookup_def)
  show ?thesis
    using C10_indexed_contracts_have_info [of "[scenario_rows]" "[]"] h1 h2
    unfolding s by blast
qed

text \<open>
  C6. For every state of a session and every query file with a ZIP column: the ZIPs
  that \<^verbatim>\<open>analyze_new_zips\<close> looks up are the trimmed string forms of the values of
  that column, each once. For every such ZIP \<open>z\<close> and every contract \<open>c\<close> the match
  rows hold exactly one row for \<open>z\<close> and \<open>c\<close> when \<open>c\<close> is in \<open>zip_contract_map[z]\<close>
  and none otherwise; so a ZIP that is not in the index has no rows. Every match row
  has a ZIP that is a key of \<open>zip_contract_map\<close>, the state id stored for its pair of
  contract and ZIP, and the number of ZIPs of its contract.
\<close>

theorem C6_match_rows:
  assumes "reachable s" and "find_zip_col (map strip (columns f)) = Some zip_col"
  shows "distinct (new_zip_codes (f\<lparr>columns := map strip (columns f)\<rparr>) zip_col) \<and>
    set (new_zip_codes (f\<lparr>columns := map strip (columns f)\<rparr>) zip_col) =
      (\<lambda>v. strip (str v)) ` set (column (f\<lparr>columns := map strip (columns f)\<rparr>) zip_col) \<and>
    (\<forall>z c. length (filter (\<lambda>r. new_zip_code r = z \<and> matching_contract r = c)
                      (match_rows indexer f s)) =
           (if z \<in> set (new_zip_codes (f\<lparr>columns := map strip (columns f)\<rparr>) zip_col) \<and>
               c \<in> members (zip_contract_map s) z then 1 else 0)) \<and>
    (\<forall>r \<in> set (match_rows indexer f s).
       new_zip_code r \<in> set (keys (zip_contract_map s)) \<and>
       matching_contract r \<in> members (zip_contract_map s) (new_zip_code r) \<and>
       stored_state_id s (matching_contract r) (new_zip_code r) = Some (mt_state_id r) \<and>
       contract_total_zips r = card (members (contract_zip_map s) (matching_contract r)))"
proof -
  let ?zs = "new_zip_codes (f\<lparr>columns := map strip (columns f)\<rparr>) zip_col"
  have ok: "index_ok s" by (rule reachable_index_ok [OF assms(1)])
  have wf: "wf_dd (zip_contract_map s)" using ok by (simp add: index_ok_def)
  have rows: "match_rows indexer f s = concat (map (zip_entries s) ?zs)"
    by (rule match_rows_eq [OF ok assms(2)])
  have d: "distinct ?zs" by (simp add: new_zip_codes_def)
  have st: "set ?zs = (\<lambda>v. strip (str v)) ` set (column (f\<lparr>columns := map strip (columns f)\<rparr>) zip_col)"
    by (simp add: new_zip_codes_def)
  have cnt: "\<forall>z c. length (filter (\<lambda>r. new_zip_code r = z \<and> matching_contract r = c)
                      (match_rows indexer f s)) =
           (if z \<in> set ?zs \<and> c \<in> members (zip_contract_map s) z then 1 else 0)"
    unfolding rows using count_in_concat [OF wf d] by blast
  have fld: "\<forall>r \<in> set (match_rows indexer f s).
       new_zip_code r \<in> set (keys (zip_contract_map s)) \<and>
       matching_contract r \<in> members (zip_contract_map s) (new_zip_code r) \<and>
       stored_state_id s (matching_contract r) (new_zip_code r) = Some (mt_state_id r) \<and>
       contract_total_zips r = card (members (contract_zip_map s) (matching_contract r))"
    unfolding rows using zip_entry_fields [OF ok] by fastforce
  from d st cnt fld show ?thesis by blast
qed

theorem C6_match_rows_witness:
  "reachable scenario_state \<and>
   find_zip_col (map strip (columns query_file)) = Some ''Zip Code'' \<and>
   length (filter (\<lambda>r. new_zip_code r = ''ZIP1'' \<and> matching_contract r = ''C2'')
             (match_rows stable_indexer query_file scenario_state)) = 1 \<and>
   length (filter (\<lambda>r. new_zip_code r = ''ZIP9'' \<and> matching_contract r = ''C2'')
             (match_rows stable_indexer query_file scenario_state)) = 0 \<and>
   ''ZIP1'' \<in> set (keys (zip_contract_map scenario_state)) \<and>
   stored_state_id scenario_state ''C1'' ''ZIP1'' = Some ''CA'' \<and>
   card (members (contract_zip_map scenario_state) ''C1'') = 1"
proof -
  let ?r = "\<lparr>new_zip_code = ''ZIP1'', mt_state_id = ''CA'', matching_contract = ''C1'',
             mt_buyer_name = Str ''Buyer'', mt_buyer_id = Str ''7'',
             mt_vertical_name = Str ''Solar'', mt_contract_status = Str ''Active'',
             contract_total_zips = 1\<rparr>"
  have r: "?r \<in> set (match_rows stable_indexer query_file scenario_state)"
    by (simp add: match_rows_query)
  let ?zs = "new_zip_codes (query_file\<lparr>columns := map strip (columns query_file)\<rparr>) ''Zip Code''"
  have zs: "?zs = [''ZIP1'', ''ZIP9'']"
    by (simp add: new_zip_codes_def query_file_def unique_def column_def cell_of_def
          strip_def isspace_def str_def)
  have m: "''C2'' \<in> members (zip_contract_map scenario_state) ''ZIP1''"
    "''C2'' \<notin> members (zip_contract_map scenario_state) ''ZIP9''"
    by (simp_all add: scenario_state_eq members_def)
  note t = C6_match_rows [OF reachable_scenario find_zip_col_query, of stable_indexer]
  note cnt = t [THEN conjunct2, THEN conjunct2, THEN conjunct1, unfolded zs]
  note fld = t [THEN conjunct2, THEN conjunct2, THEN conjunct2, THEN bspec, OF r]
  have c1: "length (filter (\<lambda>r. new_zip_code r = ''ZIP1'' \<and> matching_contract r = ''C2'')
             (match_rows stable_indexer query_file scenario_state)) = 1"
    using cnt [THEN spec, THEN spec, of "''ZIP1''" "''C2''"] m by simp
  have c0: "length (filter (\<lambda>r. new_zip_code r = ''ZIP9'' \<and> matching_contract r = ''C2'')
             (match_rows stable_indexer query_file scenario_state)) = 0"
    using cnt [THEN spec, THEN spec, of "''ZIP9''" "''C2''"] m by simp
  from fld have f: "''ZIP1'' \<in> set (keys (zip_contract_map scenario_state)) \<and>
      stored_state_id scenario_state ''C1'' ''ZIP1'' = Some ''CA'' \<and>
      card (members (contract_zip_map scenario_state) ''C1'') = 1"
    by simp
  from reachable_scenario find_zip_col_query c1 c0 f show ?thesis by blast
qed

text \<open>
  C8 at a failing input. The main file has one contract whose status cell is empty;
  it is loaded without the active filter. A query for the ZIP of that contract
  finds one match row, but the \<^verbatim>\<open>.str\<close> accessor on the all-empty status column of
  the match table raises: no \<open>new_zip_matches.xlsx\<close> is registered, and the last log
  line is the error, not the export. (Lemmas \<open>no_match_rows_reported\<close>,
  \<open>export_needs_match_rows\<close> and \<open>export_of_text_status\<close> state what holds: no rows,
  no export and the message of no matches; an export only with rows; with rows and
  a status column that holds text, the export.)
\<close>

theorem C8_match_rows_without_export:
  "fst (analyze_new_zips_run stable_indexer nan_status_query
          (load_main_file nan_status_file 1000 False init)) =
     (Some str_accessor_error,
      [\<lparr>new_zip_code = ''12345'', mt_state_id = [], matching_contract = ''C1'',
        mt_buyer_name = Str [], mt_buyer_id = Str [], mt_vertical_name = Str [],
        mt_contract_status = NaN, contract_total_zips = 1\<rparr>]) \<and>
   output_files (analyze_new_zips stable_indexer nan_status_query
          (load_main_file nan_status_file 1000 False init)) = [] \<and>
   last (logs (analyze_new_zips stable_indexer nan_status_query
          (load_main_file nan_status_file 1000 False init))) =
     ''Error analyzing new ZIP codes: Can only use .str accessor with string values!''"
  by code_simp

text \<open>
  C3. For every contract \<open>c\<close> with ZIP set \<open>Z\<close> in the index of a session, the loop of
  \<^verbatim>\<open>analyze_main_data\<close> that counts overlaps ends with an overlap count equal to the
  sum over \<open>z\<close> in \<open>Z\<close> of the number of contracts in \<open>zip_contract_map[z]\<close> other
  than \<open>c\<close>, and with a set of overlapping contracts equal to the union over \<open>z\<close>
  in \<open>Z\<close> of \<open>zip_contract_map[z]\<close> without \<open>c\<close>; the index is left as it was. For
  the ingested rows (\<open>C1\<close>, \<open>ZIP1\<close>), (\<open>C2\<close>, \<open>ZIP1\<close>), (\<open>C3\<close>, \<open>ZIP2\<close>) the
  counts of the summary are 1, 1 and 0, and the contracts with overlap are \<open>C1\<close> and
  \<open>C2\<close>.
\<close>

theorem C3_overlap_count:
  assumes "reachable s" and "(c, zips) \<in> set (contract_zip_map s)"
  shows "(\<exists>overlapping_contracts.
            count_overlaps c zips (0, []) s =
              ((\<Sum>z \<in> set zips. card (members (zip_contract_map s) z - {c}),
                overlapping_contracts), s) \<and>
            distinct overlapping_contracts \<and>
            set overlapping_contracts =
              (\<Union>z \<in> set zips. members (zip_contract_map s) z - {c})) \<and>
         (\<exists>summary_data.
            summary_loop (contract_zip_map scenario_state) [] scenario_state =
              (Inr summary_data, scenario_state) \<and>
            map (\<lambda>r. (sm_contract r, total_zip_matches r)) summary_data =
              [(''C1'', 1), (''C2'', 1), (''C3'', 0)] \<and>
            set (contracts_with_matches summary_data) = {''C1'', ''C2''})"
proof -
  have ok: "index_ok s" by (rule reachable_index_ok [OF assms(1)])
  have wf: "wf_dd (zip_contract_map s)" using ok by (simp add: index_ok_def)
  note item = index_ok_item [OF ok assms(2)]
  have run: "count_overlaps c zips (0, []) s =
     ((overlap_count s c zips, overlapping_contracts s c zips), s)"
    using count_overlaps_ok [OF item(2), of c 0 "[]"] by (simp add: overlapping_contracts_def)
  have general: "\<exists>overlapping_contracts.
            count_overlaps c zips (0, []) s =
              ((\<Sum>z \<in> set zips. card (members (zip_contract_map s) z - {c}),
                overlapping_contracts), s) \<and>
            distinct overlapping_contracts \<and>
            set overlapping_contracts =
              (\<Union>z \<in> set zips. members (zip_contract_map s) z - {c})"
    using run overlap_count_sum [OF wf item(1), of c] overlapping_contracts_set [of s c zips]
    by auto
  have scenario: "\<exists>summary_data.
            summary_loop (contract_zip_map scenario_state) [] scenario_state =
              (Inr summary_data, scenario_state) \<and>
            map (\<lambda>r. (sm_contract r, total_zip_matches r)) summary_data =
              [(''C1'', 1), (''C2'', 1), (''C3'', 0)] \<and>
            set (contracts_with_matches summary_data) = {''C1'', ''C2''}"
    unfolding scenario_summary
    by (rule exI, intro conjI, rule refl) (simp_all add: contracts_with_matches_def)
  from general scenario show ?thesis by blast
qed

theorem C3_overlap_count_witness:
  "reachable scenario_state \<and>
   (''C1'', [''ZIP1'']) \<in> set (contract_zip_map scenario_state) \<and>
   (\<exists>overlapping_contracts.
      count_overlaps ''C1'' [''ZIP1''] (0, []) scenario_state =
        ((1, overlapping_contracts), scenario_state) \<and>
      set overlapping_contracts = {''C2''})"
proof -
  have h: "(''C1'', [''ZIP1'']) \<in> set (contract_zip_map scenario_state)"
    by (simp add: scenario_state_eq)
  have m: "members (zip_contract_map scenario_state) ''ZIP1'' - {''C1''} = {''C2''}"
    by (auto simp: scenario_state_eq members_def)
  have sum1: "(\<Sum>z \<in> set [''ZIP1''].
                 card (members (zip_contract_map scenario_state) z - {''C1''})) = 1"
    by (simp add: m)
  have un: "(\<Union>z \<in> set [''ZIP1''].
               members (zip_contract_map scenario_state) z - {''C1''}) = {''C2''}"
    by (simp add: m)
  from C3_overlap_count [OF reachable_scenario h, THEN conjunct1, unfolded sum1 un]
    reachable_scenario h
  show ?thesis by blast
qed

text \<open>
  C4 at a failing input. Contracts \<open>A\<close> and \<open>B, C\<close> share ZIP \<open>10001\<close>. The detail
  row of \<open>A\<close> has the match string \<open>B, C\<close>, which the count of the detailed view
  splits into two names: the Contract Match Counts sheet records 2 for \<open>A\<close>, the
  Contract Summary records the overlap count 1.
\<close>

theorem C4_match_counts_differ:
  "sheet_of (analyze_main_data stable_indexer (load_main_file comma_file 1000 True init))
     ''detailed_contract_zip_matches.xlsx'' ''Contract Match Counts''
     = Some (Count_Sheet [(''A'', 2), (''B, C'', 1)]) \<and>
   summary_matches
     (sheet_of (analyze_main_data stable_indexer (load_main_file comma_file 1000 True init))
        ''contract_summary.xlsx'' ''Contract Summary'')
     = [(''A'', 1), (''B, C'', 1)]"
  by code_simp

end
